theory Spec2Isabelle
  imports Main
begin

section \<open>JavaScript strings and values\<close>

text \<open>
  A JavaScript string is modelled by the HOL string of its UTF-8 bytes: an ASCII
  character is one \<open>char\<close> below 128, any other character is a sequence of
  \<open>char\<close>s from 128 on. Equality, concatenation, \<^verbatim>\<open>startsWith\<close>, \<^verbatim>\<open>includes\<close> and
  \<^verbatim>\<open>split\<close> at an ASCII separator are the same on the bytes as on the characters.
\<close>

definition isAscii :: "string \<Rightarrow> bool" where
  "isAscii s = list_all (\<lambda>c. \<not> digit7 c) s"

definition toUpperChar :: "char \<Rightarrow> char" where
  "toUpperChar c =
     (case map_of (zip ''abcdefghijklmnopqrstuvwxyz'' ''ABCDEFGHIJKLMNOPQRSTUVWXYZ'') c of
        Some u \<Rightarrow> u
      | None \<Rightarrow> c)"

definition toLowerChar :: "char \<Rightarrow> char" where
  "toLowerChar c =
     (case map_of (zip ''ABCDEFGHIJKLMNOPQRSTUVWXYZ'' ''abcdefghijklmnopqrstuvwxyz'') c of
        Some l \<Rightarrow> l
      | None \<Rightarrow> c)"

text \<open>
  \<^verbatim>\<open>toUpperCase\<close> and \<^verbatim>\<open>toLowerCase\<close> are built into the language. On a string of
  ASCII characters they convert the letters a..z, respectively A..Z, and nothing else.
  On a string with a character outside ASCII the result follows the Unicode case
  tables (it may even differ in length, as for the sharp s, or be ASCII, as for the
  Kelvin sign): that result is \<open>unicodeUpperCase s\<close>, respectively
  \<open>unicodeLowerCase s\<close>, the two components of the pair \<open>unicodeCase\<close>, of which
  nothing is known here, so that nothing is stated of the code on such a string but
  that the result depends on the string alone.
\<close>

definition unicodeCase :: "(string \<Rightarrow> string) \<times> (string \<Rightarrow> string)" where
  "unicodeCase = undefined"

definition unicodeUpperCase :: "string \<Rightarrow> string" where
  "unicodeUpperCase = fst unicodeCase"

definition unicodeLowerCase :: "string \<Rightarrow> string" where
  "unicodeLowerCase = snd unicodeCase"

definition toUpperCase :: "string \<Rightarrow> string" where
  "toUpperCase s = (if isAscii s then map toUpperChar s else unicodeUpperCase s)"

definition toLowerCase :: "string \<Rightarrow> string" where
  "toLowerCase s = (if isAscii s then map toLowerChar s else unicodeLowerCase s)"

text \<open>\<^verbatim>\<open>s.startsWith(p)\<close>\<close>

definition startsWith :: "string \<Rightarrow> string \<Rightarrow> bool" where
  "startsWith s p = (take (length p) s = p)"

text \<open>\<^verbatim>\<open>s.includes(sub)\<close>: \<open>sub\<close> occurs in \<open>s\<close> at some position.\<close>

fun includesStr :: "string \<Rightarrow> string \<Rightarrow> bool" where
  "includesStr [] sub = (sub = [])"
| "includesStr (c # cs) sub = (startsWith (c # cs) sub \<or> includesStr cs sub)"

text \<open>\<^verbatim>\<open>s.split(sep)\<close> for a one-character separator; the empty string gives one empty part.\<close>

fun split :: "char \<Rightarrow> string \<Rightarrow> string list" where
  "split sep [] = [[]]"
| "split sep (c # cs) =
     (if c = sep then [] # split sep cs
      else (case split sep cs of
              p # ps \<Rightarrow> (c # p) # ps
            | [] \<Rightarrow> [[c]]))"

text \<open>\<^verbatim>\<open>xs[i]\<close>, which is \<^verbatim>\<open>undefined\<close> out of range.\<close>

definition at :: "'a list \<Rightarrow> nat \<Rightarrow> 'a option" where
  "at xs i = (if i < length xs then Some (xs ! i) else None)"

text \<open>
  An optional string field is \<open>None\<close> when the property is absent
  (\<^verbatim>\<open>undefined\<close> or \<^verbatim>\<open>null\<close>). It is truthy when it is present and not empty.
\<close>

definition truthy :: "string option \<Rightarrow> bool" where
  "truthy v = (case v of None \<Rightarrow> False | Some s \<Rightarrow> s \<noteq> [])"

text \<open>\<^verbatim>\<open>a || b\<close> on optional strings.\<close>

definition js_or :: "string option \<Rightarrow> string option \<Rightarrow> string option" where
  "js_or a b = (if truthy a then a else b)"

text \<open>\<^verbatim>\<open>xs.findIndex(p)\<close>, with \<open>None\<close> for \<^verbatim>\<open>-1\<close>.\<close>

fun findIndex :: "('a \<Rightarrow> bool) \<Rightarrow> 'a list \<Rightarrow> nat option" where
  "findIndex p [] = None"
| "findIndex p (x # xs) = (if p x then Some 0 else map_option Suc (findIndex p xs))"

text \<open>
  The values a mapping table can answer: a string, or, for a key that names a member
  of \<^verbatim>\<open>Object.prototype\<close>, that inherited member (a function, and for \<^verbatim>\<open>__proto__\<close>
  the prototype object itself).
\<close>

datatype jsval = Str string | Inherited string

text \<open>
  The values of a status or priority in the tasks file: a string, or the empty object
  that a write of the prototype object leaves there.
\<close>

datatype fileValue = Text string | EmptyObject

section \<open>Data model\<close>

text \<open>
  A TaskMaster task; its status and priority are strings in a task given to the
  handler (\<open>task\<close>) and file values in a task of the tasks file
  (\<open>storedTask\<close>). \<open>tid\<close> is the task's \<^verbatim>\<open>id\<close> as the code reads it, through
  \<^verbatim>\<open>toString()\<close> and string interpolation; \<open>ttype\<close> is its \<^verbatim>\<open>type\<close>. \<open>tags = None\<close> is a
  task with no tags collection.
\<close>

record 'v taskOf =
  tid :: string
  title :: "string option"
  summary :: "string option"
  description :: "string option"
  details :: "string option"
  ttype :: "string option"
  status :: "'v option"
  priority :: "'v option"
  tags :: "string list option"

type_synonym task = "string taskOf"

type_synonym storedTask = "fileValue taskOf"

text \<open>
  A Jira issue as the handler reads it (\<open>ifields\<close> is its \<^verbatim>\<open>fields\<close>): \<open>f_status_name\<close> is \<^verbatim>\<open>fields.status?.name\<close>,
  \<open>f_priority_name\<close> is \<^verbatim>\<open>fields.priority?.name\<close>, \<open>custom\<close> holds the custom fields by
  their field id.
\<close>

record issueFields =
  f_summary :: "string option"
  f_description :: "string option"
  f_status_name :: "string option"
  f_priority_name :: "string option"
  custom :: "(string \<times> string) list"

record issue =
  key :: string
  ifields :: "issueFields option"

text \<open>The payload of \<^verbatim>\<open>mapTaskToJiraFields\<close>.\<close>

record createFields =
  project_key :: string
  c_summary :: "string option"
  c_description :: string
  issue_type :: jsval
  c_priority :: jsval
  name :: "string list"
  dept :: "string list"

text \<open>The parsed content of \<^verbatim>\<open>.taskmaster/tasks/tasks.json\<close>.\<close>

record tagData =
  tasks :: "storedTask list option"
  tagRest :: "(string \<times> string) list"

record metadata =
  updated :: "string option"
  metaRest :: "(string \<times> string) list"

record tasksData =
  master :: "tagData option"
  topTasks :: "storedTask list option"
  metadata :: "metadata option"
  otherTags :: "(string \<times> tagData) list"

datatype error =
  ServiceError string
  | NoProjectKeyError "string list option"

text \<open>Calls of \<^verbatim>\<open>mcpClient.invoke\<close>, by tool.\<close>

datatype mcp_call =
  JiraSearch string nat
  | JiraCreateIssue createFields
  | JiraUpdateIssue "(string \<times> jsval) list"
  | JiraTransitionIssue string jsval

text \<open>
  The Jira service's collaborators: the configured id of the custom field that holds
  the TaskMaster id, and the MCP client, one function for each tool the service
  invokes. A tool takes the tracker's state \<open>'w\<close> and returns an error or a result
  with the next state.
\<close>

record 'w jiraService =
  taskMasterId :: string
  jira_search :: "string \<Rightarrow> nat \<Rightarrow> 'w \<Rightarrow> (error + issue list) \<times> 'w"
  jira_create_issue :: "createFields \<Rightarrow> 'w \<Rightarrow> (error + issue) \<times> 'w"
  jira_update_issue :: "(string \<times> jsval) list \<Rightarrow> 'w \<Rightarrow> (error + unit) \<times> 'w"
  jira_transition_issue :: "string \<Rightarrow> jsval \<Rightarrow> 'w \<Rightarrow> (error + unit) \<times> 'w"

text \<open>Events the handler emits.\<close>

datatype signal =
  TagSynced string nat
  | TagSyncError string error
  | TaskSynced string string
  | TaskSyncError string error
  | JiraSynced string string
  | JiraSyncError string error

text \<open>Lines of \<^verbatim>\<open>console.error\<close> and \<^verbatim>\<open>console.warn\<close>.\<close>

datatype log_line =
  FailedTagUpdate string error
  | FailedTaskUpdate string error
  | FailedJiraIssueUpdate string error
  | FailedSyncTask string string error
  | FailedUpdateTaskMasterTask string error
  | TaskNotFound string
  | FailedCreateIssue string error
  | FailedUpdateIssue string string error
  | FailedFindIssue string error
  | CouldNotUpdateStatus string error

text \<open>
  The handler's state and what it acts on: the \<^verbatim>\<open>syncEnabled\<close> flag and the
  \<^verbatim>\<open>syncLocks\<close> set; the tracker behind the MCP client and the calls made to it so
  far; the tasks file (\<open>Inl\<close> when reading or parsing it fails), the error a write
  raises if any, and the contents written so far; the events emitted and the
  diagnostics printed. The progress lines of \<^verbatim>\<open>console.log\<close> and the rate limiter,
  which only delays a call, are left out; the subscribers of the events are outside the
  handler, and one that raises is not modelled.
\<close>

record 'w handler =
  syncEnabled :: bool
  syncLocks :: "string set"
  tracker :: 'w
  trace :: "mcp_call list"
  tasksFile :: "error + tasksData"
  writeError :: "error option"
  writes :: "tasksData list"
  emitted :: "signal list"
  console :: "log_line list"

definition invoked :: "mcp_call \<Rightarrow> 'w handler \<Rightarrow> 'w handler" where
  "invoked c h = h\<lparr>trace := trace h @ [c]\<rparr>"

definition printed :: "log_line \<Rightarrow> 'w handler \<Rightarrow> 'w handler" where
  "printed l h = h\<lparr>console := console h @ [l]\<rparr>"

definition emit :: "signal \<Rightarrow> 'w handler \<Rightarrow> 'w handler" where
  "emit s h = h\<lparr>emitted := emitted h @ [s]\<rparr>"

section \<open>Tag classifier\<close>

definition shouldSyncTask :: "task \<Rightarrow> bool" where
  "shouldSyncTask t =
     (case tags t of
        None \<Rightarrow> False
      | Some ts \<Rightarrow>
          list_ex (\<lambda>tag. startsWith tag ''cc-dev:'' \<or> startsWith tag ''atlassian:''
                          \<or> startsWith tag ''jira:'') ts)"

definition filterSyncableTasks :: "task list \<Rightarrow> task list" where
  "filterSyncableTasks ts = filter shouldSyncTask ts"

text \<open>The loop of \<^verbatim>\<open>extractProjectKeyFromTask\<close> over the tags.\<close>

fun scanTags :: "string list \<Rightarrow> string option" where
  "scanTags [] = Some ''ADAPT''"
| "scanTags (tag # rest) =
     (if startsWith tag ''cc-dev:''
      then map_option toUpperCase (at (split (CHR '':'') tag) 1)
      else scanTags rest)"

definition extractProjectKeyFromTask :: "task \<Rightarrow> string option" where
  "extractProjectKeyFromTask t =
     (case tags t of None \<Rightarrow> None | Some ts \<Rightarrow> scanTags ts)"

text \<open>
  The \<^verbatim>\<open>groups\<close> object of \<^verbatim>\<open>groupTasksByProject\<close>, as its keys in creation order.
  \<open>groupPush\<close> is \<^verbatim>\<open>if (!groups[k]) groups[k] = []; groups[k].push(t)\<close>.
\<close>

fun groupPush :: "string \<Rightarrow> task \<Rightarrow> (string \<times> task list) list \<Rightarrow> (string \<times> task list) list" where
  "groupPush k t [] = [(k, [t])]"
| "groupPush k t ((k', ts) # g) =
     (if k = k' then (k', ts @ [t]) # g else (k', ts) # groupPush k t g)"

fun groupLoop :: "(string \<times> task list) list \<Rightarrow> task list \<Rightarrow> (string \<times> task list) list" where
  "groupLoop groups [] = groups"
| "groupLoop groups (t # ts) =
     (case extractProjectKeyFromTask t of
        None \<Rightarrow> groupLoop groups ts
      | Some k \<Rightarrow> if k \<noteq> [] then groupLoop (groupPush k t groups) ts else groupLoop groups ts)"

definition groupTasksByProject :: "task list \<Rightarrow> (string \<times> task list) list" where
  "groupTasksByProject ts = groupLoop [] ts"

text \<open>
  \<^verbatim>\<open>Object.entries\<close>: the keys that are array indices (canonical decimal numerals
  below \<open>2^32 - 1\<close>) come first, in ascending order, then the other keys in creation
  order.
\<close>

definition digitValue :: "char \<Rightarrow> nat option" where
  "digitValue c = map_of (zip ''0123456789'' [0 ..< 10]) c"

definition decimal :: "string \<Rightarrow> nat" where
  "decimal s = foldl (\<lambda>n c. 10 * n + (case digitValue c of Some d \<Rightarrow> d | None \<Rightarrow> 0)) 0 s"

definition isArrayIndex :: "string \<Rightarrow> bool" where
  "isArrayIndex s =
     (s \<noteq> [] \<and> list_all (\<lambda>c. digitValue c \<noteq> None) s
      \<and> (s = ''0'' \<or> take 1 s \<noteq> ''0'') \<and> decimal s < 2 ^ 32 - 1)"

definition entries :: "(string \<times> 'a) list \<Rightarrow> (string \<times> 'a) list" where
  "entries g =
     sort_key (\<lambda>kv. decimal (fst kv)) (filter (\<lambda>kv. isArrayIndex (fst kv)) g)
     @ filter (\<lambda>kv. \<not> isArrayIndex (fst kv)) g"

section \<open>Field mapper\<close>

text \<open>
  \<^verbatim>\<open>mapping[k] || d\<close> for an object literal whose values are non-empty strings;
  \<open>None\<close> is the key \<^verbatim>\<open>undefined\<close>. A key of the literal answers its string. Any
  other key is looked up in \<^verbatim>\<open>Object.prototype\<close>: a key that names one of its members
  answers that member, which is truthy, and only the remaining keys answer the default.
\<close>

definition objectPrototypeKeys :: "string list" where
  "objectPrototypeKeys =
     [''constructor'', ''__defineGetter__'', ''__defineSetter__'', ''hasOwnProperty'',
      ''__lookupGetter__'', ''__lookupSetter__'', ''isPrototypeOf'',
      ''propertyIsEnumerable'', ''toString'', ''valueOf'', ''__proto__'',
      ''toLocaleString'']"

definition lookupOr :: "(string \<times> string) list \<Rightarrow> string option \<Rightarrow> string \<Rightarrow> jsval" where
  "lookupOr m k d =
     (case k of
        None \<Rightarrow> Str d
      | Some s \<Rightarrow>
          (case map_of m s of
             Some v \<Rightarrow> Str v
           | None \<Rightarrow> if s \<in> set objectPrototypeKeys then Inherited s else Str d))"

definition mapTaskTypeToIssueType :: "string option \<Rightarrow> jsval" where
  "mapTaskTypeToIssueType taskType =
     lookupOr [(''epic'', ''Epic''), (''story'', ''Story''), (''task'', ''Task''),
               (''bug'', ''Bug''), (''research'', ''Research'')]
       (map_option toLowerCase taskType) ''Task''"

definition mapTaskPriorityToJiraPriority :: "string option \<Rightarrow> jsval" where
  "mapTaskPriorityToJiraPriority taskPriority =
     lookupOr [(''highest'', ''Highest''), (''high'', ''High''), (''medium'', ''Medium''),
               (''low'', ''Low''), (''lowest'', ''Lowest'')]
       (map_option toLowerCase taskPriority) ''Medium''"

definition mapTaskStatusToJiraStatus :: "string option \<Rightarrow> jsval" where
  "mapTaskStatusToJiraStatus taskStatus =
     lookupOr [(''pending'', ''To Do''), (''in_progress'', ''In Progress''),
               (''in-progress'', ''In Progress''), (''review'', ''Review''),
               (''done'', ''Done''), (''completed'', ''Done''), (''cancelled'', ''Done'')]
       (map_option toLowerCase taskStatus) ''To Do''"

definition mapJiraStatusToTaskStatus :: "string \<Rightarrow> jsval" where
  "mapJiraStatusToTaskStatus jiraStatus =
     lookupOr [(''To Do'', ''pending''), (''In Progress'', ''in_progress''),
               (''Review'', ''review''), (''Done'', ''completed''), (''Closed'', ''completed'')]
       (Some jiraStatus) ''pending''"

definition mapJiraPriorityToTaskPriority :: "string \<Rightarrow> jsval" where
  "mapJiraPriorityToTaskPriority jiraPriority =
     lookupOr [(''Highest'', ''highest''), (''High'', ''high''), (''Medium'', ''medium''),
               (''Low'', ''low''), (''Lowest'', ''lowest'')]
       (Some jiraPriority) ''medium''"

text \<open>
  \<^verbatim>\<open>mapTaskUpdatesToJiraFields\<close>: the \<^verbatim>\<open>fields\<close> object, as its properties in the
  order they are set.
\<close>

definition mapTaskUpdatesToJiraFields :: "task \<Rightarrow> (string \<times> jsval) list" where
  "mapTaskUpdatesToJiraFields taskData =
     (case js_or (title taskData) (summary taskData) of
        Some s \<Rightarrow> if s \<noteq> [] then [(''summary'', Str s)] else []
      | None \<Rightarrow> [])
     @ (case js_or (description taskData) (details taskData) of
          Some s \<Rightarrow> if s \<noteq> [] then [(''description'', Str s)] else []
        | None \<Rightarrow> [])
     @ (if truthy (priority taskData)
        then [(''priority'', mapTaskPriorityToJiraPriority (priority taskData))]
        else [])"

definition mapTaskToJiraFields :: "task \<Rightarrow> string \<Rightarrow> createFields" where
  "mapTaskToJiraFields taskData projectKey =
     \<lparr> project_key = projectKey,
       c_summary = js_or (title taskData) (summary taskData),
       c_description =
         (case js_or (js_or (description taskData) (details taskData)) (Some []) of
            Some s \<Rightarrow> s
          | None \<Rightarrow> []),
       issue_type = mapTaskTypeToIssueType (ttype taskData),
       c_priority = mapTaskPriorityToJiraPriority (priority taskData),
       name = [''PRIME''],
       dept = [''DevOps''] \<rparr>"

text \<open>\<^verbatim>\<open>extractProjectKeyFromTags\<close> of the Jira service.\<close>

fun extractProjectKeyFromTags :: "string list \<Rightarrow> string option" where
  "extractProjectKeyFromTags [] = None"
| "extractProjectKeyFromTags (tag # rest) =
     (if startsWith tag ''cc-dev:'' \<and> 2 \<le> length (split (CHR '':'') tag)
      then map_option toUpperCase (at (split (CHR '':'') tag) 1)
      else extractProjectKeyFromTags rest)"

section \<open>Jira service\<close>

text \<open>The JQL of \<^verbatim>\<open>findJiraIssueForTask\<close>: \<^verbatim>\<open>cf[<field id>] ~ "<task id>"\<close>.\<close>

definition taskJql :: "'w jiraService \<Rightarrow> string \<Rightarrow> string" where
  "taskJql J taskId = ''cf['' @ taskMasterId J @ ''] ~ '' @ [CHR 0x22] @ taskId @ [CHR 0x22]"

text \<open>
  \<^verbatim>\<open>findJiraIssueForTask\<close>: the first issue of the search, \<open>None\<close> when the search is
  empty or fails (the error is printed, not raised).
\<close>

fun findJiraIssueForTask :: "'w jiraService \<Rightarrow> string \<Rightarrow> 'w handler \<Rightarrow> issue option \<times> 'w handler" where
  "findJiraIssueForTask J taskId h =
     (let jql = taskJql J taskId;
          h1 = invoked (JiraSearch jql 1) h
      in case jira_search J jql 1 (tracker h1) of
           (Inl e, w) \<Rightarrow> (None, printed (FailedFindIssue taskId e) (h1\<lparr>tracker := w\<rparr>))
         | (Inr searchResult, w) \<Rightarrow>
             (case searchResult of
                [] \<Rightarrow> (None, h1\<lparr>tracker := w\<rparr>)
              | i # _ \<Rightarrow> (Some i, h1\<lparr>tracker := w\<rparr>)))"

text \<open>\<^verbatim>\<open>updateJiraIssueStatus\<close>: a failed transition is printed, not raised.\<close>

fun updateJiraIssueStatus :: "'w jiraService \<Rightarrow> string \<Rightarrow> string option \<Rightarrow> 'w handler \<Rightarrow> 'w handler" where
  "updateJiraIssueStatus J issueKey st h =
     (let jiraStatus = mapTaskStatusToJiraStatus st;
          h1 = invoked (JiraTransitionIssue issueKey jiraStatus) h
      in case jira_transition_issue J issueKey jiraStatus (tracker h1) of
           (Inl e, w) \<Rightarrow> printed (CouldNotUpdateStatus issueKey e) (h1\<lparr>tracker := w\<rparr>)
         | (Inr _, w) \<Rightarrow> h1\<lparr>tracker := w\<rparr>)"

text \<open>
  \<^verbatim>\<open>updateJiraIssueFromTask\<close>: the update call takes
  \<^verbatim>\<open>{ issue_key: issueKey, ...updateFields }\<close>.
\<close>

fun updateJiraIssueFromTask :: "'w jiraService \<Rightarrow> string \<Rightarrow> task \<Rightarrow> 'w handler \<Rightarrow> (error + unit) \<times> 'w handler" where
  "updateJiraIssueFromTask J issueKey taskData h =
     (let updateFields = mapTaskUpdatesToJiraFields taskData;
          payload = (''issue_key'', Str issueKey) # updateFields;
          h1 = invoked (JiraUpdateIssue payload) h
      in case jira_update_issue J payload (tracker h1) of
           (Inl e, w) \<Rightarrow>
             (Inl e, printed (FailedUpdateIssue issueKey (tid taskData) e) (h1\<lparr>tracker := w\<rparr>))
         | (Inr _, w) \<Rightarrow>
             (Inr (),
              if truthy (status taskData)
              then updateJiraIssueStatus J issueKey (status taskData) (h1\<lparr>tracker := w\<rparr>)
              else h1\<lparr>tracker := w\<rparr>))"

text \<open>\<^verbatim>\<open>createJiraIssueFromTask\<close>: returns the key of the created issue.\<close>

fun createJiraIssueFromTask :: "'w jiraService \<Rightarrow> task \<Rightarrow> 'w handler \<Rightarrow> (error + string) \<times> 'w handler" where
  "createJiraIssueFromTask J taskData h =
     (let projectKey =
            extractProjectKeyFromTags (case tags taskData of None \<Rightarrow> [] | Some ts \<Rightarrow> ts)
      in if \<not> truthy projectKey
         then (Inl (NoProjectKeyError (tags taskData)),
               printed (FailedCreateIssue (tid taskData) (NoProjectKeyError (tags taskData))) h)
         else
           (let issueFields =
                  mapTaskToJiraFields taskData (case projectKey of Some k \<Rightarrow> k | None \<Rightarrow> []);
                h1 = invoked (JiraCreateIssue issueFields) h
            in case jira_create_issue J issueFields (tracker h1) of
                 (Inl e, w) \<Rightarrow>
                   (Inl e, printed (FailedCreateIssue (tid taskData) e) (h1\<lparr>tracker := w\<rparr>))
               | (Inr i, w) \<Rightarrow> (Inr (key i), h1\<lparr>tracker := w\<rparr>)))"

definition extractTaskMasterIdFromJiraIssue :: "'w jiraService \<Rightarrow> issue \<Rightarrow> string option" where
  "extractTaskMasterIdFromJiraIssue J issueData =
     (case ifields issueData of
        None \<Rightarrow> None
      | Some f \<Rightarrow>
          (case map_of (custom f) (taskMasterId J) of
             None \<Rightarrow> None
           | Some v \<Rightarrow> if v \<noteq> [] then Some v else None))"

section \<open>TaskMaster integration handler\<close>

text \<open>
  \<^verbatim>\<open>syncTaskToJira\<close>. On the creation path with a project key, the tag
  \<^verbatim>\<open>cc-dev:<key>\<close> is pushed onto the task's tags unless a tag includes the key in
  lower case. The task is the caller's object; the handler does not look at it again.
\<close>

definition withProjectTag :: "string option \<Rightarrow> task \<Rightarrow> task" where
  "withProjectTag projectKey taskData =
     (if truthy projectKey
      then (let pk = toLowerCase (case projectKey of Some k \<Rightarrow> k | None \<Rightarrow> []);
                ts = (case tags taskData of None \<Rightarrow> [] | Some ts \<Rightarrow> ts)
            in taskData\<lparr>tags :=
                 Some (if list_ex (\<lambda>tag. includesStr tag pk) ts then ts
                       else ts @ [''cc-dev:'' @ pk])\<rparr>)
      else taskData)"

fun syncTaskToJira :: "'w jiraService \<Rightarrow> task \<Rightarrow> string option \<Rightarrow> 'w handler \<Rightarrow> (error + unit) \<times> 'w handler" where
  "syncTaskToJira J taskData projectKey h =
     (case findJiraIssueForTask J (tid taskData) h of
        (Some existingIssue, h1) \<Rightarrow> updateJiraIssueFromTask J (key existingIssue) taskData h1
      | (None, h1) \<Rightarrow>
          (case createJiraIssueFromTask J (withProjectTag projectKey taskData) h1 of
             (Inl e, h2) \<Rightarrow> (Inl e, h2)
           | (Inr newIssue, h2) \<Rightarrow> (Inr (), h2)))"

text \<open>\<^verbatim>\<open>syncProjectTasks\<close>: an error of one task is printed and the loop goes on.\<close>

fun syncProjectTasks :: "'w jiraService \<Rightarrow> string \<Rightarrow> task list \<Rightarrow> 'w handler \<Rightarrow> 'w handler" where
  "syncProjectTasks J projectKey [] h = h"
| "syncProjectTasks J projectKey (t # ts) h =
     (case syncTaskToJira J t (Some projectKey) h of
        (Inl e, h1) \<Rightarrow>
          syncProjectTasks J projectKey ts (printed (FailedSyncTask (tid t) projectKey e) h1)
      | (Inr _, h1) \<Rightarrow> syncProjectTasks J projectKey ts h1)"

text \<open>The loop of \<^verbatim>\<open>handleTagUpdate\<close> over the entries of the groups.\<close>

fun syncGroups :: "'w jiraService \<Rightarrow> (string \<times> task list) list \<Rightarrow> 'w handler \<Rightarrow> 'w handler" where
  "syncGroups J [] h = h"
| "syncGroups J ((projectKey, projectTasks) # gs) h =
     syncGroups J gs (syncProjectTasks J projectKey projectTasks h)"

text \<open>
  The three entry points have the shape \<^verbatim>\<open>try { ... } catch (error) { ... } finally
  { this.syncLocks.delete(key) }\<close>. The \<open>Try\<close> function is the \<^verbatim>\<open>try\<close> block: it
  returns \<open>Inl\<close> for a raised error and \<open>Inr\<close> for a normal completion or a
  \<^verbatim>\<open>return\<close>.
\<close>

fun handleTagUpdateTry :: "'w jiraService \<Rightarrow> string \<Rightarrow> task list \<Rightarrow> 'w handler \<Rightarrow> (error + unit) \<times> 'w handler" where
  "handleTagUpdateTry J tagName ts h =
     (if \<not> syncEnabled h \<or> ''tag:'' @ tagName \<in> syncLocks h then (Inr (), h)
      else
        (let h1 = h\<lparr>syncLocks := insert (''tag:'' @ tagName) (syncLocks h)\<rparr>;
             syncableTasks = filterSyncableTasks ts
         in if length syncableTasks = 0 then (Inr (), h1)
            else
              (let tasksByProject = groupTasksByProject syncableTasks;
                   h2 = syncGroups J (entries tasksByProject) h1
               in (Inr (), emit (TagSynced tagName (length syncableTasks)) h2))))"

fun handleTagUpdate :: "'w jiraService \<Rightarrow> string \<Rightarrow> task list \<Rightarrow> 'w handler \<Rightarrow> 'w handler" where
  "handleTagUpdate J tagName ts h =
     (let h' = (case handleTagUpdateTry J tagName ts h of
                  (Inl e, h1) \<Rightarrow>
                    emit (TagSyncError tagName e) (printed (FailedTagUpdate tagName e) h1)
                | (Inr _, h1) \<Rightarrow> h1)
      in h'\<lparr>syncLocks := syncLocks h' - {''tag:'' @ tagName}\<rparr>)"

fun handleTaskUpdateTry :: "'w jiraService \<Rightarrow> task \<Rightarrow> string \<Rightarrow> 'w handler \<Rightarrow> (error + unit) \<times> 'w handler" where
  "handleTaskUpdateTry J taskData tagName h =
     (if \<not> syncEnabled h \<or> ''task:'' @ tid taskData \<in> syncLocks h then (Inr (), h)
      else
        (let h1 = h\<lparr>syncLocks := insert (''task:'' @ tid taskData) (syncLocks h)\<rparr>
         in if \<not> shouldSyncTask taskData then (Inr (), h1)
            else
              (case syncTaskToJira J taskData None h1 of
                 (Inl e, h2) \<Rightarrow> (Inl e, h2)
               | (Inr _, h2) \<Rightarrow> (Inr (), emit (TaskSynced (tid taskData) tagName) h2))))"

fun handleTaskUpdate :: "'w jiraService \<Rightarrow> task \<Rightarrow> string \<Rightarrow> 'w handler \<Rightarrow> 'w handler" where
  "handleTaskUpdate J taskData tagName h =
     (let h' = (case handleTaskUpdateTry J taskData tagName h of
                  (Inl e, h1) \<Rightarrow>
                    emit (TaskSyncError (tid taskData) e)
                      (printed (FailedTaskUpdate (tid taskData) e) h1)
                | (Inr _, h1) \<Rightarrow> h1)
      in h'\<lparr>syncLocks := syncLocks h' - {''task:'' @ tid taskData}\<rparr>)"

text \<open>
  \<^verbatim>\<open>updateTaskMasterTask\<close>. \<open>masterTasks\<close> is
  \<^verbatim>\<open>tasksData.master?.tasks || tasksData.tasks || []\<close>; \<open>storeMasterTasks\<close> puts the
  list back where \<open>masterTasks\<close> took it from (the code updates the task object in
  place).
\<close>

definition masterTasks :: "tasksData \<Rightarrow> storedTask list" where
  "masterTasks d =
     (case (case master d of None \<Rightarrow> None | Some m \<Rightarrow> tasks m) of
        Some l \<Rightarrow> l
      | None \<Rightarrow> (case topTasks d of Some l \<Rightarrow> l | None \<Rightarrow> []))"

definition storeMasterTasks :: "storedTask list \<Rightarrow> tasksData \<Rightarrow> tasksData" where
  "storeMasterTasks l d =
     (case (case master d of None \<Rightarrow> None | Some m \<Rightarrow> map_option (\<lambda>_. m) (tasks m)) of
        Some m \<Rightarrow> d\<lparr>master := Some (m\<lparr>tasks := Some l\<rparr>)\<rparr>
      | None \<Rightarrow> (case topTasks d of Some _ \<Rightarrow> d\<lparr>topTasks := Some l\<rparr> | None \<Rightarrow> d))"

text \<open>\<^verbatim>\<open>issueData.fields?.<field>\<close>\<close>

definition issueField :: "(issueFields \<Rightarrow> string option) \<Rightarrow> issue \<Rightarrow> string option" where
  "issueField sel issueData = (case ifields issueData of None \<Rightarrow> None | Some f \<Rightarrow> sel f)"

text \<open>The four field updates of \<^verbatim>\<open>updateTaskMasterTask\<close>, in the code's order.\<close>

definition applySummary :: "issue \<Rightarrow> storedTask \<Rightarrow> storedTask" where
  "applySummary issueData t =
     (if truthy (issueField f_summary issueData) \<and> issueField f_summary issueData \<noteq> title t
      then t\<lparr>title := issueField f_summary issueData\<rparr>
      else t)"

definition applyDescription :: "issue \<Rightarrow> storedTask \<Rightarrow> storedTask" where
  "applyDescription issueData t =
     (if truthy (issueField f_description issueData)
         \<and> issueField f_description issueData \<noteq> description t
      then t\<lparr>description := issueField f_description issueData\<rparr>
      else t)"

text \<open>
  A mapped value against the field of a task read from the file. \<open>sameValue\<close> is
  \<^verbatim>\<open>===\<close>: a string equals the same string, an inherited member equals nothing read
  from a file. \<open>written\<close> is the field as \<^verbatim>\<open>JSON.stringify\<close> writes it: a string as
  it is, the prototype object as an empty object, and a function not at all (the
  property is left out). The task is not read again between the update and the write.
\<close>

definition sameValue :: "jsval \<Rightarrow> fileValue option \<Rightarrow> bool" where
  "sameValue v cur = (case v of Str s \<Rightarrow> cur = Some (Text s) | Inherited k \<Rightarrow> False)"

definition written :: "jsval \<Rightarrow> fileValue option" where
  "written v =
     (case v of
        Str s \<Rightarrow> Some (Text s)
      | Inherited k \<Rightarrow> if k = ''__proto__'' then Some EmptyObject else None)"

definition applyStatus :: "issue \<Rightarrow> storedTask \<Rightarrow> storedTask" where
  "applyStatus issueData t =
     (case issueField f_status_name issueData of
        None \<Rightarrow> t
      | Some n \<Rightarrow>
          if n \<noteq> []
          then (let mappedStatus = mapJiraStatusToTaskStatus n
                in if \<not> sameValue mappedStatus (status t)
                   then t\<lparr>status := written mappedStatus\<rparr> else t)
          else t)"

definition applyPriority :: "issue \<Rightarrow> storedTask \<Rightarrow> storedTask" where
  "applyPriority issueData t =
     (case issueField f_priority_name issueData of
        None \<Rightarrow> t
      | Some n \<Rightarrow>
          if n \<noteq> []
          then (let mappedPriority = mapJiraPriorityToTaskPriority n
                in if \<not> sameValue mappedPriority (priority t)
                   then t\<lparr>priority := written mappedPriority\<rparr> else t)
          else t)"

definition applyIssue :: "issue \<Rightarrow> storedTask \<Rightarrow> storedTask" where
  "applyIssue issueData t =
     applyPriority issueData
       (applyStatus issueData (applyDescription issueData (applySummary issueData t)))"

definition touchMetadata :: "string \<Rightarrow> tasksData \<Rightarrow> tasksData" where
  "touchMetadata now d =
     d\<lparr>metadata :=
         Some ((case metadata d of
                  Some m \<Rightarrow> m
                | None \<Rightarrow> \<lparr> updated = None, metaRest = [] \<rparr>)\<lparr>updated := Some now\<rparr>)\<rparr>"

fun updateTaskMasterTask :: "string \<Rightarrow> string \<Rightarrow> issue \<Rightarrow> 'w handler \<Rightarrow> (error + unit) \<times> 'w handler" where
  "updateTaskMasterTask now taskId issueData h =
     (case tasksFile h of
        Inl e \<Rightarrow> (Inl e, printed (FailedUpdateTaskMasterTask taskId e) h)
      | Inr d \<Rightarrow>
          (case findIndex (\<lambda>t. tid t = taskId) (masterTasks d) of
             None \<Rightarrow> (Inr (), printed (TaskNotFound taskId) h)
           | Some taskIndex \<Rightarrow>
               (let t' = applyIssue issueData (masterTasks d ! taskIndex);
                    d' = touchMetadata now
                           (storeMasterTasks ((masterTasks d)[taskIndex := t']) d)
                in case writeError h of
                     Some e \<Rightarrow> (Inl e, printed (FailedUpdateTaskMasterTask taskId e) h)
                   | None \<Rightarrow> (Inr (), h\<lparr>tasksFile := Inr d', writes := writes h @ [d']\<rparr>))))"

fun handleJiraIssueUpdateTry :: "'w jiraService \<Rightarrow> string \<Rightarrow> issue \<Rightarrow> 'w handler \<Rightarrow> (error + unit) \<times> 'w handler" where
  "handleJiraIssueUpdateTry J now issueData h =
     (if \<not> syncEnabled h then (Inr (), h)
      else
        (let taskId = extractTaskMasterIdFromJiraIssue J issueData
         in if \<not> truthy taskId \<or> ''jira:'' @ key issueData \<in> syncLocks h then (Inr (), h)
            else
              (let h1 = h\<lparr>syncLocks := insert (''jira:'' @ key issueData) (syncLocks h)\<rparr>;
                   taskId' = (case taskId of Some i \<Rightarrow> i | None \<Rightarrow> [])
               in case updateTaskMasterTask now taskId' issueData h1 of
                    (Inl e, h2) \<Rightarrow> (Inl e, h2)
                  | (Inr _, h2) \<Rightarrow> (Inr (), emit (JiraSynced (key issueData) taskId') h2))))"

fun handleJiraIssueUpdate :: "'w jiraService \<Rightarrow> string \<Rightarrow> issue \<Rightarrow> 'w handler \<Rightarrow> 'w handler" where
  "handleJiraIssueUpdate J now issueData h =
     (let h' = (case handleJiraIssueUpdateTry J now issueData h of
                  (Inl e, h1) \<Rightarrow>
                    emit (JiraSyncError (key issueData) e)
                      (printed (FailedJiraIssueUpdate (key issueData) e) h1)
                | (Inr _, h1) \<Rightarrow> h1)
      in h'\<lparr>syncLocks := syncLocks h' - {''jira:'' @ key issueData}\<rparr>)"

section \<open>Observations on two states\<close>


text \<open>The calls made to the tracker between the state \<open>h\<close> and the later state \<open>h'\<close>.\<close>

definition newCalls :: "'w handler \<Rightarrow> 'w handler \<Rightarrow> mcp_call list" where
  "newCalls h h' = drop (length (trace h)) (trace h')"

text \<open>The lookups among a list of calls.\<close>

definition lookups :: "mcp_call list \<Rightarrow> mcp_call list" where
  "lookups cs = filter (\<lambda>c. case c of JiraSearch jql limit \<Rightarrow> True | _ \<Rightarrow> False) cs"

text \<open>
  \<open>h'\<close> comes after \<open>h\<close> by tracker calls and printed diagnostics only: the flag,
  the locks, the tasks file and the emitted events are the same, the trace and the
  console have grown.
\<close>

definition onlyCalls :: "'w handler \<Rightarrow> 'w handler \<Rightarrow> bool" where
  "onlyCalls h h' =
     (syncEnabled h' = syncEnabled h \<and> syncLocks h' = syncLocks h
      \<and> tasksFile h' = tasksFile h \<and> writeError h' = writeError h \<and> writes h' = writes h
      \<and> emitted h' = emitted h
      \<and> (\<exists>cs. trace h' = trace h @ cs) \<and> (\<exists>ls. console h' = console h @ ls))"

section \<open>Example collaborators and inputs\<close>

text \<open>
  A tracker that keeps the issues created so far: a search returns them (up to the
  limit), a creation adds an issue, an update and a transition succeed.
\<close>

definition listTracker :: "issue list jiraService" where
  "listTracker =
     \<lparr> taskMasterId = ''customfield_10032'',
       jira_search = (\<lambda>jql limit w. (Inr (take limit w), w)),
       jira_create_issue =
         (\<lambda>f w. (Inr \<lparr> key = project_key f @ ''-1'', ifields = None \<rparr>,
                  w @ [\<lparr> key = project_key f @ ''-1'', ifields = None \<rparr>])),
       jira_update_issue = (\<lambda>payload w. (Inr (), w)),
       jira_transition_issue = (\<lambda>issueKey st w. (Inr (), w)) \<rparr>"

text \<open>A tracker that finds nothing and rejects every creation.\<close>

definition rejectingTracker :: "unit jiraService" where
  "rejectingTracker =
     \<lparr> taskMasterId = ''customfield_10032'',
       jira_search = (\<lambda>jql limit w. (Inr [], w)),
       jira_create_issue = (\<lambda>f w. (Inl (ServiceError ''rejected''), w)),
       jira_update_issue = (\<lambda>payload w. (Inr (), w)),
       jira_transition_issue = (\<lambda>issueKey st w. (Inr (), w)) \<rparr>"

definition exTask :: "string \<Rightarrow> string list option \<Rightarrow> task" where
  "exTask i ts =
     \<lparr> tid = i, title = Some ''Fix bug'', summary = None, description = None, details = None,
       ttype = None, status = Some ''pending'', priority = Some ''high'', tags = ts \<rparr>"

definition asStored :: "task \<Rightarrow> storedTask" where
  "asStored t =
     \<lparr> tid = tid t, title = title t, summary = summary t, description = description t,
       details = details t, ttype = ttype t, status = map_option Text (status t),
       priority = map_option Text (priority t), tags = tags t \<rparr>"

definition exData :: tasksData where
  "exData =
     \<lparr> master = Some \<lparr> tasks = Some [asStored (exTask ''t-1'' (Some [''cc-dev:proj''])),
                                      asStored (exTask ''t-2'' (Some []))],
                       tagRest = [] \<rparr>,
       topTasks = None,
       metadata = None,
       otherTags = [(''feature'', \<lparr> tasks = Some [asStored (exTask ''t-9'' (Some [''jira:x'']))],
                                   tagRest = [] \<rparr>)] \<rparr>"

definition exIssue :: "string \<Rightarrow> issue" where
  "exIssue taskId =
     \<lparr> key = ''PROJ-9'',
       ifields = Some \<lparr> f_summary = Some ''Updated title'', f_description = None,
                        f_status_name = Some ''In Progress'', f_priority_name = Some ''High'',
                        custom = [(''customfield_10032'', taskId)] \<rparr> \<rparr>"

definition idle :: "'w \<Rightarrow> 'w handler" where
  "idle w =
     \<lparr> syncEnabled = True, syncLocks = {}, tracker = w, trace = [], tasksFile = Inr exData,
       writeError = None, writes = [], emitted = [], console = [] \<rparr>"

section \<open>Projections of the state updates\<close>

declare findJiraIssueForTask.simps [simp del]
declare updateJiraIssueStatus.simps [simp del]
declare updateJiraIssueFromTask.simps [simp del]
declare createJiraIssueFromTask.simps [simp del]
declare syncTaskToJira.simps [simp del]
declare handleTagUpdateTry.simps [simp del]
declare handleTagUpdate.simps [simp del]
declare handleTaskUpdateTry.simps [simp del]
declare handleTaskUpdate.simps [simp del]
declare updateTaskMasterTask.simps [simp del]
declare handleJiraIssueUpdateTry.simps [simp del]
declare handleJiraIssueUpdate.simps [simp del]


lemma invoked_simps [simp]:
  "trace (invoked c h) = trace h @ [c]" "tracker (invoked c h) = tracker h"
  "syncEnabled (invoked c h) = syncEnabled h" "syncLocks (invoked c h) = syncLocks h"
  "tasksFile (invoked c h) = tasksFile h" "writeError (invoked c h) = writeError h"
  "writes (invoked c h) = writes h" "emitted (invoked c h) = emitted h"
  "console (invoked c h) = console h"
  by (simp_all add: invoked_def)

lemma printed_simps [simp]:
  "trace (printed l h) = trace h" "tracker (printed l h) = tracker h"
  "syncEnabled (printed l h) = syncEnabled h" "syncLocks (printed l h) = syncLocks h"
  "tasksFile (printed l h) = tasksFile h" "writeError (printed l h) = writeError h"
  "writes (printed l h) = writes h" "emitted (printed l h) = emitted h"
  "console (printed l h) = console h @ [l]"
  by (simp_all add: printed_def)

lemma emit_simps [simp]:
  "trace (emit s h) = trace h" "tracker (emit s h) = tracker h"
  "syncEnabled (emit s h) = syncEnabled h" "syncLocks (emit s h) = syncLocks h"
  "tasksFile (emit s h) = tasksFile h" "writeError (emit s h) = writeError h"
  "writes (emit s h) = writes h" "emitted (emit s h) = emitted h @ [s]"
  "console (emit s h) = console h"
  by (simp_all add: emit_def)

section \<open>Tag classifier: syncable tasks\<close>

lemma startsWith_iff: "startsWith s p \<longleftrightarrow> (\<exists>rest. s = p @ rest)"
  unfolding startsWith_def
  by (metis append_eq_conv_conj append_take_drop_id)

text \<open>
  C2. A task with no tags collection, or with an empty one, is not syncable; a task is
  syncable exactly when it has a tags collection and one of its tags starts with
  \<^verbatim>\<open>cc-dev:\<close>, \<^verbatim>\<open>atlassian:\<close> or \<^verbatim>\<open>jira:\<close>. The function is total: it returns a
  truth value for every task.
\<close>

theorem shouldSyncTask_iff:
  "(tags t = None \<longrightarrow> \<not> shouldSyncTask t) \<and> (tags t = Some [] \<longrightarrow> \<not> shouldSyncTask t) \<and>
   (shouldSyncTask t \<longleftrightarrow>
      (\<exists>ts. tags t = Some ts \<and>
         (\<exists>tag \<in> set ts. \<exists>rest. tag = ''cc-dev:'' @ rest \<or> tag = ''atlassian:'' @ rest
                                   \<or> tag = ''jira:'' @ rest)))"
proof -
  have a: "tags t = None \<longrightarrow> \<not> shouldSyncTask t" by (simp add: shouldSyncTask_def)
  have b: "tags t = Some [] \<longrightarrow> \<not> shouldSyncTask t" by (simp add: shouldSyncTask_def)
  have c: "shouldSyncTask t \<longleftrightarrow>
      (\<exists>ts. tags t = Some ts \<and>
         (\<exists>tag \<in> set ts. \<exists>rest. tag = ''cc-dev:'' @ rest \<or> tag = ''atlassian:'' @ rest
                                   \<or> tag = ''jira:'' @ rest))"
  proof (cases "tags t")
    case None
    then show ?thesis by (simp add: shouldSyncTask_def)
  next
    case (Some ts)
    then show ?thesis
      unfolding shouldSyncTask_def list_ex_iff startsWith_iff by auto
  qed
  from a b c show ?thesis by blast
qed

theorem shouldSyncTask_iff_witness:
  "\<not> shouldSyncTask (exTask ''t-0'' None) \<and> \<not> shouldSyncTask (exTask ''t-2'' (Some []))
   \<and> shouldSyncTask (exTask ''t-3'' (Some [''docs'', ''jira:board'']))"
proof -
  have n: "tags (exTask ''t-0'' None) = None" by (simp add: exTask_def)
  have e: "tags (exTask ''t-2'' (Some [])) = Some []" by (simp add: exTask_def)
  have "''jira:board'' = ''jira:'' @ ''board''" by simp
  then have "\<exists>tag \<in> set [''docs'', ''jira:board'']. \<exists>rest.
      tag = ''cc-dev:'' @ rest \<or> tag = ''atlassian:'' @ rest \<or> tag = ''jira:'' @ rest"
    by (intro bexI [of _ "''jira:board''"] exI [of _ "''board''"]) simp_all
  moreover have "tags (exTask ''t-3'' (Some [''docs'', ''jira:board''])) = Some [''docs'', ''jira:board'']"
    by (simp add: exTask_def)
  ultimately have s: "\<exists>ts. tags (exTask ''t-3'' (Some [''docs'', ''jira:board''])) = Some ts \<and>
      (\<exists>tag \<in> set ts. \<exists>rest.
         tag = ''cc-dev:'' @ rest \<or> tag = ''atlassian:'' @ rest \<or> tag = ''jira:'' @ rest)"
    by blast
  show ?thesis
    using shouldSyncTask_iff [of "exTask ''t-0'' None"] n
      shouldSyncTask_iff [of "exTask ''t-2'' (Some [])"] e
      shouldSyncTask_iff [of "exTask ''t-3'' (Some [''docs'', ''jira:board''])"] s
    by blast
qed

section \<open>Field mapper: status round trip\<close>

text \<open>
  C6. Mapping a task status to a Jira status and back returns the status for
  \<^verbatim>\<open>pending\<close>, \<^verbatim>\<open>in_progress\<close>, \<^verbatim>\<open>review\<close> and \<^verbatim>\<open>completed\<close>; \<^verbatim>\<open>cancelled\<close> comes
  back as \<^verbatim>\<open>completed\<close>. Each step is stated with the string it answers: the Jira
  status of the first step is the argument of the second.
\<close>

theorem status_round_trip:
  "mapTaskStatusToJiraStatus (Some ''pending'') = Str ''To Do'' \<and>
   mapJiraStatusToTaskStatus ''To Do'' = Str ''pending'' \<and>
   mapTaskStatusToJiraStatus (Some ''in_progress'') = Str ''In Progress'' \<and>
   mapJiraStatusToTaskStatus ''In Progress'' = Str ''in_progress'' \<and>
   mapTaskStatusToJiraStatus (Some ''review'') = Str ''Review'' \<and>
   mapJiraStatusToTaskStatus ''Review'' = Str ''review'' \<and>
   mapTaskStatusToJiraStatus (Some ''completed'') = Str ''Done'' \<and>
   mapTaskStatusToJiraStatus (Some ''cancelled'') = Str ''Done'' \<and>
   mapJiraStatusToTaskStatus ''Done'' = Str ''completed''"
  by code_simp

section \<open>Tag classifier: project keys and groups\<close>

lemma split_no_sep: "sep \<notin> set s \<Longrightarrow> split sep s = [s]"
  by (induction s) auto

lemma split_append_sep: "sep \<notin> set s \<Longrightarrow> split sep (s @ sep # r) = s # split sep r"
  by (induction s) auto

lemma second_segment:
  assumes "CHR '':'' \<notin> set seg" and "rst = [] \<or> (\<exists>m. rst = CHR '':'' # m)"
  shows "at (split (CHR '':'') (''cc-dev:'' @ seg @ rst)) 1 = Some seg"
proof -
  have a: "split (CHR '':'') (''cc-dev:'' @ seg @ rst) = ''cc-dev'' # split (CHR '':'') (seg @ rst)"
    using split_append_sep [of "CHR '':''" "''cc-dev''" "seg @ rst"] by simp
  from assms(2) have "\<exists>r. split (CHR '':'') (seg @ rst) = seg # r"
  proof
    assume "rst = []"
    then show ?thesis using assms(1) by (simp add: split_no_sep)
  next
    assume "\<exists>m. rst = CHR '':'' # m"
    then obtain m where "rst = CHR '':'' # m" ..
    then show ?thesis using assms(1) by (simp add: split_append_sep)
  qed
  then show ?thesis using a by (auto simp: at_def)
qed

lemma scanTags_default: "\<forall>x \<in> set ts. \<not> startsWith x ''cc-dev:'' \<Longrightarrow> scanTags ts = Some ''ADAPT''"
  by (induction ts) auto

lemma scanTags_first:
  "\<forall>x \<in> set pre. \<not> startsWith x ''cc-dev:'' \<Longrightarrow> startsWith tag ''cc-dev:'' \<Longrightarrow>
   scanTags (pre @ tag # post) = map_option toUpperCase (at (split (CHR '':'') tag) 1)"
  by (induction pre) auto

lemma map_of_groupPush_same:
  "map_of (groupPush k t G) k = Some ((case map_of G k of Some g \<Rightarrow> g | None \<Rightarrow> []) @ [t])"
  by (induction G) auto

lemma map_of_groupPush_other: "k' \<noteq> k \<Longrightarrow> map_of (groupPush k t G) k' = map_of G k'"
  by (induction G) auto

lemma groupPush_keeps:
  "map_of G k' = Some g \<Longrightarrow> x \<in> set g \<Longrightarrow> \<exists>g'. map_of (groupPush k t G) k' = Some g' \<and> x \<in> set g'"
  by (cases "k' = k") (auto simp: map_of_groupPush_same map_of_groupPush_other)

lemma groupLoop_keeps:
  "map_of G k = Some g \<Longrightarrow> x \<in> set g \<Longrightarrow> \<exists>g'. map_of (groupLoop G ts) k = Some g' \<and> x \<in> set g'"
proof (induction ts arbitrary: G g)
  case Nil
  then show ?case by simp
next
  case (Cons t ts)
  show ?case
  proof (cases "extractProjectKeyFromTask t")
    case None
    then show ?thesis using Cons by simp
  next
    case (Some k')
    show ?thesis
    proof (cases "k' = []")
      case True
      then show ?thesis using Some Cons by simp
    next
      case False
      obtain g' where "map_of (groupPush k' t G) k = Some g'" "x \<in> set g'"
        using groupPush_keeps [OF Cons.prems] by blast
      then show ?thesis using Some False Cons.IH by simp
    qed
  qed
qed

lemma groupLoop_member:
  "t \<in> set ts \<Longrightarrow> extractProjectKeyFromTask t = Some k \<Longrightarrow> k \<noteq> [] \<Longrightarrow>
   \<exists>g. map_of (groupLoop G ts) k = Some g \<and> t \<in> set g"
proof (induction ts arbitrary: G)
  case Nil
  then show ?case by simp
next
  case (Cons a ts)
  show ?case
  proof (cases "t = a")
    case True
    have "\<exists>g. map_of (groupPush k a G) k = Some g \<and> a \<in> set g"
      by (simp add: map_of_groupPush_same)
    then obtain g where "map_of (groupPush k a G) k = Some g" "a \<in> set g" by blast
    from groupLoop_keeps [OF this, of ts] show ?thesis using True Cons.prems by simp
  next
    case False
    then have "t \<in> set ts" using Cons.prems by simp
    from Cons.IH [OF this Cons.prems(2,3)] show ?thesis
      by (auto split: option.splits)
  qed
qed

text \<open>
  C8 (amended). \<^verbatim>\<open>extractProjectKeyFromTask\<close> scans the tags in order: the first tag
  that starts with \<^verbatim>\<open>cc-dev:\<close> gives its second colon-separated segment, put in
  upper case by \<^verbatim>\<open>toUpperCase\<close>; a tags collection with no such tag gives \<^verbatim>\<open>ADAPT\<close>; a task with no tags
  collection gives no key at all (\<^verbatim>\<open>null\<close>). In a batch of syncable tasks, every
  task without a \<^verbatim>\<open>cc-dev:\<close> tag is put in the group \<^verbatim>\<open>ADAPT\<close>.
\<close>

theorem projectKey_of_task:
  "(tags t = None \<longrightarrow> extractProjectKeyFromTask t = None) \<and>
   (\<forall>pre tag post seg rst.
      tags t = Some (pre @ tag # post) \<and> (\<forall>x \<in> set pre. \<not> startsWith x ''cc-dev:'') \<and>
      tag = ''cc-dev:'' @ seg @ rst \<and> CHR '':'' \<notin> set seg \<and>
      (rst = [] \<or> (\<exists>m. rst = CHR '':'' # m))
      \<longrightarrow> extractProjectKeyFromTask t = Some (toUpperCase seg)) \<and>
   (\<forall>ts. tags t = Some ts \<and> (\<forall>x \<in> set ts. \<not> startsWith x ''cc-dev:'')
      \<longrightarrow> extractProjectKeyFromTask t = Some ''ADAPT'') \<and>
   (\<forall>x \<in> set (filterSyncableTasks batch).
      (\<forall>ts. tags x = Some ts \<longrightarrow> (\<forall>tag \<in> set ts. \<not> startsWith tag ''cc-dev:''))
      \<longrightarrow> (\<exists>g. map_of (groupTasksByProject (filterSyncableTasks batch)) ''ADAPT'' = Some g
                \<and> x \<in> set g))"
proof (intro conjI allI impI ballI)
  assume "tags t = None"
  then show "extractProjectKeyFromTask t = None"
    by (simp add: extractProjectKeyFromTask_def)
next
  fix pre tag post seg rst
  assume a: "tags t = Some (pre @ tag # post) \<and> (\<forall>x \<in> set pre. \<not> startsWith x ''cc-dev:'') \<and>
      tag = ''cc-dev:'' @ seg @ rst \<and> CHR '':'' \<notin> set seg \<and>
      (rst = [] \<or> (\<exists>m. rst = CHR '':'' # m))"
  then have sw: "startsWith tag ''cc-dev:''" by (auto simp: startsWith_iff)
  have "at (split (CHR '':'') tag) 1 = Some seg"
    using a second_segment [of seg rst] by blast
  then show "extractProjectKeyFromTask t = Some (toUpperCase seg)"
    using a sw scanTags_first [of pre tag post] by (simp add: extractProjectKeyFromTask_def)
next
  fix ts
  assume "tags t = Some ts \<and> (\<forall>x \<in> set ts. \<not> startsWith x ''cc-dev:'')"
  then show "extractProjectKeyFromTask t = Some ''ADAPT''"
    by (simp add: extractProjectKeyFromTask_def scanTags_default)
next
  fix x
  assume x: "x \<in> set (filterSyncableTasks batch)"
    and n: "\<forall>ts. tags x = Some ts \<longrightarrow> (\<forall>tag \<in> set ts. \<not> startsWith tag ''cc-dev:'')"
  from x have "shouldSyncTask x" by (simp add: filterSyncableTasks_def)
  then obtain ts where ts: "tags x = Some ts"
    by (auto simp: shouldSyncTask_def split: option.splits)
  with n have "extractProjectKeyFromTask x = Some ''ADAPT''"
    by (simp add: extractProjectKeyFromTask_def scanTags_default)
  from groupLoop_member [OF x this] show
    "\<exists>g. map_of (groupTasksByProject (filterSyncableTasks batch)) ''ADAPT'' = Some g \<and> x \<in> set g"
    by (simp add: groupTasksByProject_def)
qed

text \<open>
  A task with no tags collection has no \<^verbatim>\<open>cc-dev:\<close> tag, and its project key is
  not \<^verbatim>\<open>ADAPT\<close>: the guard \<^verbatim>\<open>if (!task.tags) return null\<close> comes first.
\<close>

theorem projectKey_of_task_counterexample:
  "tags (exTask ''t-0'' None) = None \<and> extractProjectKeyFromTask (exTask ''t-0'' None) \<noteq> Some ''ADAPT''"
  by (simp add: exTask_def extractProjectKeyFromTask_def)

theorem projectKey_of_task_witness:
  "extractProjectKeyFromTask (exTask ''t-0'' None) = None \<and>
   extractProjectKeyFromTask (exTask ''t-4'' (Some [''docs'', ''cc-dev:proj:x'', ''cc-dev:other'']))
     = Some ''PROJ'' \<and>
   extractProjectKeyFromTask (exTask ''t-3'' (Some [''docs'', ''jira:board''])) = Some ''ADAPT'' \<and>
   (\<exists>g. map_of (groupTasksByProject (filterSyncableTasks
            [exTask ''t-4'' (Some [''cc-dev:proj'']), exTask ''t-2'' (Some []),
             exTask ''t-3'' (Some [''docs'', ''jira:board''])])) ''ADAPT'' = Some g
        \<and> exTask ''t-3'' (Some [''docs'', ''jira:board'']) \<in> set g)"
proof -
  let ?a = "exTask ''t-4'' (Some [''docs'', ''cc-dev:proj:x'', ''cc-dev:other''])"
  let ?b = "exTask ''t-3'' (Some [''docs'', ''jira:board''])"
  let ?batch = "[exTask ''t-4'' (Some [''cc-dev:proj'']), exTask ''t-2'' (Some []), ?b]"
  have 0: "extractProjectKeyFromTask (exTask ''t-0'' None) = None"
    using projectKey_of_task [of "exTask ''t-0'' None" "[]"] by (simp add: exTask_def)
  have "tags ?a = Some ([''docs''] @ ''cc-dev:proj:x'' # [''cc-dev:other'']) \<and>
        (\<forall>x \<in> set [''docs'']. \<not> startsWith x ''cc-dev:'') \<and>
        ''cc-dev:proj:x'' = ''cc-dev:'' @ ''proj'' @ '':x'' \<and> CHR '':'' \<notin> set ''proj'' \<and>
        ('':x'' = [] \<or> (\<exists>m. '':x'' = CHR '':'' # m))"
    by (simp add: exTask_def startsWith_def)
  then have "extractProjectKeyFromTask ?a = Some (toUpperCase ''proj'')"
    using projectKey_of_task [of ?a "[]", THEN conjunct2, THEN conjunct1, rule_format,
        where pre = "[''docs'']" and tag = "''cc-dev:proj:x''" and post = "[''cc-dev:other'']"
          and seg = "''proj''" and rst = "'':x''"]
    by blast
  then have 1: "extractProjectKeyFromTask ?a = Some ''PROJ''"
    by (simp add: toUpperCase_def toUpperChar_def isAscii_def)
  have "tags ?b = Some [''docs'', ''jira:board''] \<and>
        (\<forall>x \<in> set [''docs'', ''jira:board'']. \<not> startsWith x ''cc-dev:'')"
    by (simp add: exTask_def startsWith_def)
  then have 2: "extractProjectKeyFromTask ?b = Some ''ADAPT''"
    using projectKey_of_task [of ?b "[]", THEN conjunct2, THEN conjunct2, THEN conjunct1]
    by blast
  have m: "?b \<in> set (filterSyncableTasks ?batch)"
    by (simp add: filterSyncableTasks_def shouldSyncTask_def exTask_def startsWith_def)
  have n: "\<forall>ts. tags ?b = Some ts \<longrightarrow> (\<forall>tag \<in> set ts. \<not> startsWith tag ''cc-dev:'')"
    by (simp add: exTask_def startsWith_def)
  have 3: "\<exists>g. map_of (groupTasksByProject (filterSyncableTasks ?batch)) ''ADAPT'' = Some g
             \<and> ?b \<in> set g"
    using projectKey_of_task [of ?b ?batch, THEN conjunct2, THEN conjunct2, THEN conjunct2,
        rule_format, OF m] n
    by blast
  from 0 1 2 3 show ?thesis by blast
qed

section \<open>Field mapper: the update payload\<close>

lemma piece_map:
  "map_of (case v of Some s \<Rightarrow> if s \<noteq> [] then [(k, Str s)] else [] | None \<Rightarrow> []) k' =
     (if k' = k \<and> truthy v then map_option Str v else None)"
  by (cases v) (auto simp: truthy_def)

lemma piece_keys:
  "map fst (case v of Some s \<Rightarrow> if s \<noteq> [] then [(k, Str s)] else [] | None \<Rightarrow> []) =
     (if truthy v then [k] else [])"
  by (cases v) (auto simp: truthy_def)

lemma truthy_js_or: "truthy (js_or a b) = (truthy a \<or> truthy b)"
  by (simp add: js_or_def)

lemma updateFields_summary:
  "map_of (mapTaskUpdatesToJiraFields t) ''summary'' =
     (if truthy (title t) then map_option Str (title t)
      else if truthy (summary t) then map_option Str (summary t) else None)"
  by (simp add: mapTaskUpdatesToJiraFields_def map_of_append piece_map map_add_def truthy_js_or)
    (auto simp: js_or_def truthy_def split: option.splits)

lemma updateFields_description:
  "map_of (mapTaskUpdatesToJiraFields t) ''description'' =
     (if truthy (description t) then map_option Str (description t)
      else if truthy (details t) then map_option Str (details t) else None)"
  by (simp add: mapTaskUpdatesToJiraFields_def map_of_append piece_map map_add_def truthy_js_or)
    (auto simp: js_or_def truthy_def split: option.splits)

lemma updateFields_priority:
  "map_of (mapTaskUpdatesToJiraFields t) ''priority'' =
     (if truthy (priority t) then Some (mapTaskPriorityToJiraPriority (priority t)) else None)"
  by (simp add: mapTaskUpdatesToJiraFields_def map_of_append piece_map map_add_def truthy_js_or)

lemma updateFields_keys:
  "fst ` set (mapTaskUpdatesToJiraFields t) \<subseteq> {''summary'', ''description'', ''priority''}"
  unfolding set_map [symmetric]
  by (simp add: mapTaskUpdatesToJiraFields_def piece_keys) auto

lemma updateFields_distinct: "distinct (map fst (mapTaskUpdatesToJiraFields t))"
  by (simp add: mapTaskUpdatesToJiraFields_def piece_keys)

lemma updateJiraIssueFromTask_failed:
  assumes "jira_update_issue J ((''issue_key'', Str k) # mapTaskUpdatesToJiraFields t) (tracker h) = (Inl e, w)"
  shows "fst (updateJiraIssueFromTask J k t h) = Inl e \<and>
     trace (snd (updateJiraIssueFromTask J k t h)) =
       trace h @ [JiraUpdateIssue ((''issue_key'', Str k) # mapTaskUpdatesToJiraFields t)]"
  using assms
  by (simp add: updateJiraIssueFromTask.simps Let_def split: prod.splits sum.splits)

lemma updateJiraIssueFromTask_trace:
  assumes "jira_update_issue J ((''issue_key'', Str k) # mapTaskUpdatesToJiraFields t) (tracker h) = (Inr (), w)"
  shows "trace (snd (updateJiraIssueFromTask J k t h)) =
     trace h @ JiraUpdateIssue ((''issue_key'', Str k) # mapTaskUpdatesToJiraFields t)
       # (if truthy (status t) then [JiraTransitionIssue k (mapTaskStatusToJiraStatus (status t))]
          else [])"
  using assms
  by (simp add: updateJiraIssueFromTask.simps updateJiraIssueStatus.simps Let_def
      split: prod.splits sum.splits)

text \<open>
  The tables at keys that \<^verbatim>\<open>Object.prototype\<close> answers: \<^verbatim>\<open>constructor\<close> is inherited
  in both directions, \<^verbatim>\<open>toString\<close> only where the key is not put in lower case
  first; an unknown key gets the default.
\<close>

lemma inherited_members:
  "mapTaskPriorityToJiraPriority (Some ''constructor'') = Inherited ''constructor'' \<and>
   mapTaskPriorityToJiraPriority (Some ''toString'') = Str ''Medium'' \<and>
   mapTaskPriorityToJiraPriority (Some ''HIGH'') = Str ''High'' \<and>
   mapTaskPriorityToJiraPriority None = Str ''Medium'' \<and>
   mapJiraStatusToTaskStatus ''toString'' = Inherited ''toString'' \<and>
   mapJiraStatusToTaskStatus ''Blocked'' = Str ''pending''"
  by code_simp

text \<open>
  C7. The fields built for the update of an existing issue hold \<^verbatim>\<open>summary\<close> exactly
  when the title or else the summary of the task is non-empty (with that value),
  \<^verbatim>\<open>description\<close> exactly when the description or else the details are non-empty,
  \<^verbatim>\<open>priority\<close> exactly when the task has a non-empty priority (with whatever the
  priority table answers for it, an inherited member included), and no other key: in particular no \<^verbatim>\<open>status\<close>. When the update call
  succeeds, a non-empty task status is sent in a transition call of its own, after the
  update; with no status, no transition is sent. When the update call raises, the
  error is raised again and no transition is sent.
\<close>

theorem update_payload:
  "map_of (mapTaskUpdatesToJiraFields t) ''summary'' =
     (if truthy (title t) then map_option Str (title t)
      else if truthy (summary t) then map_option Str (summary t) else None) \<and>
   map_of (mapTaskUpdatesToJiraFields t) ''description'' =
     (if truthy (description t) then map_option Str (description t)
      else if truthy (details t) then map_option Str (details t) else None) \<and>
   map_of (mapTaskUpdatesToJiraFields t) ''priority'' =
     (if truthy (priority t) then Some (mapTaskPriorityToJiraPriority (priority t)) else None) \<and>
   fst ` set (mapTaskUpdatesToJiraFields t) \<subseteq> {''summary'', ''description'', ''priority''} \<and>
   distinct (map fst (mapTaskUpdatesToJiraFields t)) \<and>
   ''status'' \<notin> fst ` set (mapTaskUpdatesToJiraFields t) \<and>
   (\<forall>J k h w.
      jira_update_issue J ((''issue_key'', Str k) # mapTaskUpdatesToJiraFields t) (tracker h)
        = (Inr (), w :: 'w)
      \<longrightarrow> trace (snd (updateJiraIssueFromTask J k t h)) =
            trace h @ JiraUpdateIssue ((''issue_key'', Str k) # mapTaskUpdatesToJiraFields t)
              # (if truthy (status t)
                 then [JiraTransitionIssue k (mapTaskStatusToJiraStatus (status t))]
                 else [])) \<and>
   (\<forall>J k h e w.
      jira_update_issue J ((''issue_key'', Str k) # mapTaskUpdatesToJiraFields t) (tracker h)
        = (Inl e, w :: 'w)
      \<longrightarrow> fst (updateJiraIssueFromTask J k t h) = Inl e \<and>
          trace (snd (updateJiraIssueFromTask J k t h)) =
            trace h @ [JiraUpdateIssue ((''issue_key'', Str k) # mapTaskUpdatesToJiraFields t)])"
proof (intro conjI allI impI)
  show "''status'' \<notin> fst ` set (mapTaskUpdatesToJiraFields t)"
    using updateFields_keys [of t] by auto
next
  fix J :: "'w jiraService" and k and h :: "'w handler" and e w
  assume a: "jira_update_issue J ((''issue_key'', Str k) # mapTaskUpdatesToJiraFields t) (tracker h)
      = (Inl e, w)"
  from updateJiraIssueFromTask_failed [OF a]
  show "fst (updateJiraIssueFromTask J k t h) = Inl e"
    and "trace (snd (updateJiraIssueFromTask J k t h)) =
      trace h @ [JiraUpdateIssue ((''issue_key'', Str k) # mapTaskUpdatesToJiraFields t)]"
    by simp_all
qed (rule updateFields_summary updateFields_description updateFields_priority
      updateFields_keys updateFields_distinct updateJiraIssueFromTask_trace, assumption?)+


theorem update_payload_witness:
  "map_of (mapTaskUpdatesToJiraFields (exTask ''t-1'' (Some [''cc-dev:proj'']))) ''summary''
     = Some (Str ''Fix bug'') \<and>
   map_of (mapTaskUpdatesToJiraFields (exTask ''t-1'' (Some [''cc-dev:proj'']))) ''description''
     = None \<and>
   map_of (mapTaskUpdatesToJiraFields (exTask ''t-1'' (Some [''cc-dev:proj'']))) ''priority''
     = Some (Str ''High'') \<and>
   trace (snd (updateJiraIssueFromTask listTracker ''PROJ-1''
                 (exTask ''t-1'' (Some [''cc-dev:proj''])) (idle []))) =
     [JiraUpdateIssue [(''issue_key'', Str ''PROJ-1''), (''summary'', Str ''Fix bug''),
                       (''priority'', Str ''High'')],
      JiraTransitionIssue ''PROJ-1'' (Str ''To Do'')]"
proof -
  let ?t = "exTask ''t-1'' (Some [''cc-dev:proj''])"
  note T = update_payload [of ?t]
  have f: "mapTaskUpdatesToJiraFields ?t = [(''summary'', Str ''Fix bug''), (''priority'', Str ''High'')]"
    by (simp add: mapTaskUpdatesToJiraFields_def exTask_def js_or_def truthy_def
        mapTaskPriorityToJiraPriority_def lookupOr_def toLowerCase_def isAscii_def toLowerChar_def)
  have s: "mapTaskStatusToJiraStatus (status ?t) = Str ''To Do''"
    by (simp add: exTask_def mapTaskStatusToJiraStatus_def lookupOr_def toLowerCase_def isAscii_def
        toLowerChar_def)
  have u: "jira_update_issue listTracker ((''issue_key'', Str ''PROJ-1'') # mapTaskUpdatesToJiraFields ?t)
             (tracker (idle [])) = (Inr (), [])"
    by (simp add: listTracker_def idle_def)
  have tr: "trace (snd (updateJiraIssueFromTask listTracker ''PROJ-1'' ?t (idle []))) =
      trace (idle ([] :: issue list)) @ JiraUpdateIssue ((''issue_key'', Str ''PROJ-1'') # mapTaskUpdatesToJiraFields ?t)
        # (if truthy (status ?t)
           then [JiraTransitionIssue ''PROJ-1'' (mapTaskStatusToJiraStatus (status ?t))] else [])"
    using T [THEN conjunct2, THEN conjunct2, THEN conjunct2, THEN conjunct2, THEN conjunct2,
        THEN conjunct2, THEN conjunct1, rule_format, OF u] .
  have p: "truthy (title ?t)" "\<not> truthy (description ?t)" "\<not> truthy (details ?t)"
    "truthy (priority ?t)" "truthy (status ?t)" "title ?t = Some ''Fix bug''"
    "mapTaskPriorityToJiraPriority (priority ?t) = Str ''High''"
    by (simp_all add: exTask_def truthy_def mapTaskPriorityToJiraPriority_def lookupOr_def
        toLowerCase_def isAscii_def toLowerChar_def)
  have a: "map_of (mapTaskUpdatesToJiraFields ?t) ''summary'' = Some (Str ''Fix bug'')"
    using T [THEN conjunct1] p by simp
  have b: "map_of (mapTaskUpdatesToJiraFields ?t) ''description'' = None"
    using T [THEN conjunct2, THEN conjunct1] p by simp
  have c: "map_of (mapTaskUpdatesToJiraFields ?t) ''priority'' = Some (Str ''High'')"
    using T [THEN conjunct2, THEN conjunct2, THEN conjunct1] p by simp
  have d: "trace (snd (updateJiraIssueFromTask listTracker ''PROJ-1'' ?t (idle []))) =
     [JiraUpdateIssue [(''issue_key'', Str ''PROJ-1''), (''summary'', Str ''Fix bug''),
                       (''priority'', Str ''High'')],
      JiraTransitionIssue ''PROJ-1'' (Str ''To Do'')]"
    using tr p(5) by (simp only: f s) (simp add: idle_def)
  from a b c d show ?thesis by blast
qed

section \<open>Reverse sync\<close>


lemma findIndex_Some: "findIndex p xs = Some i \<Longrightarrow> i < length xs \<and> p (xs ! i)"
  by (induction xs arbitrary: i) (auto split: if_splits)

lemma masterTasks_store:
  "masterTasks d \<noteq> [] \<Longrightarrow> masterTasks (storeMasterTasks l d) = l"
  by (auto simp: masterTasks_def storeMasterTasks_def split: option.splits)

lemma masterTasks_touch: "masterTasks (touchMetadata now d) = masterTasks d"
  by (auto simp: masterTasks_def touchMetadata_def split: option.splits)

lemma store_frame:
  "otherTags (storeMasterTasks l d) = otherTags d"
  "metadata (storeMasterTasks l d) = metadata d"
  "map_option tagRest (master (storeMasterTasks l d)) = map_option tagRest (master d)"
  by (auto simp: storeMasterTasks_def split: option.splits)

lemma store_where:
  "(case master d of None \<Rightarrow> None | Some m \<Rightarrow> tasks m) = Some l0 \<Longrightarrow>
     topTasks (storeMasterTasks l d) = topTasks d"
  "(case master d of None \<Rightarrow> None | Some m \<Rightarrow> tasks m) = None \<Longrightarrow>
     master (storeMasterTasks l d) = master d"
  by (auto simp: storeMasterTasks_def split: option.splits)

lemma touch_frame:
  "otherTags (touchMetadata now d) = otherTags d"
  "master (touchMetadata now d) = master d"
  "topTasks (touchMetadata now d) = topTasks d"
  "\<exists>m. metadata (touchMetadata now d) = Some m \<and> updated m = Some now
       \<and> metaRest m = (case metadata d of Some m0 \<Rightarrow> metaRest m0 | None \<Rightarrow> [])"
  by (auto simp: touchMetadata_def split: option.splits)

lemma applySummary_fields [simp]:
  "tid (applySummary i t) = tid t" "summary (applySummary i t) = summary t"
  "details (applySummary i t) = details t" "ttype (applySummary i t) = ttype t"
  "tags (applySummary i t) = tags t" "description (applySummary i t) = description t"
  "status (applySummary i t) = status t" "priority (applySummary i t) = priority t"
  by (simp_all add: applySummary_def)

lemma applyDescription_fields [simp]:
  "tid (applyDescription i t) = tid t" "summary (applyDescription i t) = summary t"
  "details (applyDescription i t) = details t" "ttype (applyDescription i t) = ttype t"
  "tags (applyDescription i t) = tags t" "title (applyDescription i t) = title t"
  "status (applyDescription i t) = status t" "priority (applyDescription i t) = priority t"
  by (simp_all add: applyDescription_def)

lemma applyStatus_fields [simp]:
  "tid (applyStatus i t) = tid t" "summary (applyStatus i t) = summary t"
  "details (applyStatus i t) = details t" "ttype (applyStatus i t) = ttype t"
  "tags (applyStatus i t) = tags t" "title (applyStatus i t) = title t"
  "description (applyStatus i t) = description t" "priority (applyStatus i t) = priority t"
  by (simp_all add: applyStatus_def Let_def split: option.splits)

lemma applyPriority_fields [simp]:
  "tid (applyPriority i t) = tid t" "summary (applyPriority i t) = summary t"
  "details (applyPriority i t) = details t" "ttype (applyPriority i t) = ttype t"
  "tags (applyPriority i t) = tags t" "title (applyPriority i t) = title t"
  "description (applyPriority i t) = description t" "status (applyPriority i t) = status t"
  by (simp_all add: applyPriority_def Let_def split: option.splits)

lemma applyIssue_frame:
  "tid (applyIssue i t) = tid t" "summary (applyIssue i t) = summary t"
  "details (applyIssue i t) = details t" "ttype (applyIssue i t) = ttype t"
  "tags (applyIssue i t) = tags t"
  by (simp_all add: applyIssue_def)

lemma applyIssue_title:
  "title (applyIssue i t) =
     (if truthy (issueField f_summary i) \<and> issueField f_summary i \<noteq> title t
      then issueField f_summary i else title t)"
  by (simp add: applyIssue_def) (simp add: applySummary_def)

lemma applyIssue_description:
  "description (applyIssue i t) =
     (if truthy (issueField f_description i) \<and> issueField f_description i \<noteq> description t
      then issueField f_description i else description t)"
  by (simp add: applyIssue_def) (simp add: applyDescription_def)

lemma applyIssue_status:
  "status (applyIssue i t) =
     (case issueField f_status_name i of
             None \<Rightarrow> status t
           | Some n \<Rightarrow>
               if n \<noteq> [] \<and> \<not> sameValue (mapJiraStatusToTaskStatus n) (status t)
               then written (mapJiraStatusToTaskStatus n) else status t)"
  by (simp add: applyIssue_def) (simp add: applyStatus_def Let_def split: option.splits)

lemma applyIssue_priority:
  "priority (applyIssue i t) =
     (case issueField f_priority_name i of
             None \<Rightarrow> priority t
           | Some n \<Rightarrow>
               if n \<noteq> [] \<and> \<not> sameValue (mapJiraPriorityToTaskPriority n) (priority t)
               then written (mapJiraPriorityToTaskPriority n) else priority t)"
  by (simp add: applyIssue_def) (simp add: applyPriority_def Let_def split: option.splits)

text \<open>
  C5. When reverse sync finds the task at index \<open>i\<close> of the master list (or of the
  top-level list) and the write succeeds, the content written differs from the content
  read only in that task and in the metadata: the list has the same length and the
  same tasks at every other index, the other tags, the rest of the master tag and the
  list that was not used are unchanged, and \<^verbatim>\<open>metadata.updated\<close> is the current time.
  In the task itself the id, summary, details, type and tags are unchanged. Title and
  description are overwritten exactly when the issue's value is present (non-empty)
  and differs from the task's. Status and priority are overwritten exactly when the
  issue's name is present (non-empty) and what the table answers for it is not the
  task's value; the field then holds the table's answer as it is written to the file.
\<close>

theorem reverse_sync_write_back:
  assumes "tasksFile h = Inr d"
    and "findIndex (\<lambda>t. tid t = taskId) (masterTasks d) = Some i"
    and "writeError h = None"
  shows "\<exists>d'. updateTaskMasterTask now taskId issueData h
                 = (Inr (), h\<lparr>tasksFile := Inr d', writes := writes h @ [d']\<rparr>)
      \<and> length (masterTasks d') = length (masterTasks d)
      \<and> (\<forall>j < length (masterTasks d). j \<noteq> i \<longrightarrow> masterTasks d' ! j = masterTasks d ! j)
      \<and> otherTags d' = otherTags d
      \<and> map_option tagRest (master d') = map_option tagRest (master d)
      \<and> (\<forall>l0. (case master d of None \<Rightarrow> None | Some m \<Rightarrow> tasks m) = Some l0
               \<longrightarrow> topTasks d' = topTasks d)
      \<and> ((case master d of None \<Rightarrow> None | Some m \<Rightarrow> tasks m) = None \<longrightarrow> master d' = master d)
      \<and> (\<exists>m. metadata d' = Some m \<and> updated m = Some now
              \<and> metaRest m = (case metadata d of Some m0 \<Rightarrow> metaRest m0 | None \<Rightarrow> []))
      \<and> tid (masterTasks d' ! i) = taskId
      \<and> summary (masterTasks d' ! i) = summary (masterTasks d ! i)
      \<and> details (masterTasks d' ! i) = details (masterTasks d ! i)
      \<and> ttype (masterTasks d' ! i) = ttype (masterTasks d ! i)
      \<and> tags (masterTasks d' ! i) = tags (masterTasks d ! i)
      \<and> title (masterTasks d' ! i) =
          (if truthy (issueField f_summary issueData)
              \<and> issueField f_summary issueData \<noteq> title (masterTasks d ! i)
           then issueField f_summary issueData else title (masterTasks d ! i))
      \<and> description (masterTasks d' ! i) =
          (if truthy (issueField f_description issueData)
              \<and> issueField f_description issueData \<noteq> description (masterTasks d ! i)
           then issueField f_description issueData else description (masterTasks d ! i))
      \<and> status (masterTasks d' ! i) =
          (case issueField f_status_name issueData of
             None \<Rightarrow> status (masterTasks d ! i)
           | Some n \<Rightarrow>
               if n \<noteq> [] \<and> \<not> sameValue (mapJiraStatusToTaskStatus n) (status (masterTasks d ! i))
               then written (mapJiraStatusToTaskStatus n) else status (masterTasks d ! i))
      \<and> priority (masterTasks d' ! i) =
          (case issueField f_priority_name issueData of
             None \<Rightarrow> priority (masterTasks d ! i)
           | Some n \<Rightarrow>
               if n \<noteq> [] \<and> \<not> sameValue (mapJiraPriorityToTaskPriority n) (priority (masterTasks d ! i))
               then written (mapJiraPriorityToTaskPriority n) else priority (masterTasks d ! i))"
proof -
  let ?L = "masterTasks d"
  let ?t' = "applyIssue issueData (?L ! i)"
  let ?d' = "touchMetadata now (storeMasterTasks (?L[i := ?t']) d)"
  from findIndex_Some [OF assms(2)] have i: "i < length ?L" and id: "tid (?L ! i) = taskId"
    by simp_all
  then have ne: "?L \<noteq> []" by auto
  have run: "updateTaskMasterTask now taskId issueData h
               = (Inr (), h\<lparr>tasksFile := Inr ?d', writes := writes h @ [?d']\<rparr>)"
    using assms by (simp add: updateTaskMasterTask.simps Let_def)
  have L': "masterTasks ?d' = ?L[i := ?t']"
    using ne by (simp add: masterTasks_touch masterTasks_store)
  have at_i: "masterTasks ?d' ! i = ?t'" using L' i by simp
  show ?thesis
  proof (intro exI [of _ ?d'] conjI allI impI)
    show "updateTaskMasterTask now taskId issueData h
            = (Inr (), h\<lparr>tasksFile := Inr ?d', writes := writes h @ [?d']\<rparr>)"
      by (rule run)
    show "length (masterTasks ?d') = length ?L" by (simp only: L' length_list_update)
    show "masterTasks ?d' ! j = ?L ! j" if "j \<noteq> i" for j
      using that unfolding L' by simp
    show "otherTags ?d' = otherTags d" by (simp add: touch_frame store_frame)
    show "map_option tagRest (master ?d') = map_option tagRest (master d)"
      by (simp add: touch_frame store_frame)
    show "topTasks ?d' = topTasks d"
      if "(case master d of None \<Rightarrow> None | Some m \<Rightarrow> tasks m) = Some l0" for l0
      using that by (simp add: touch_frame store_where)
    show "master ?d' = master d"
      if "(case master d of None \<Rightarrow> None | Some m \<Rightarrow> tasks m) = None"
      using that by (simp add: touch_frame store_where)
    show "\<exists>m. metadata ?d' = Some m \<and> updated m = Some now
              \<and> metaRest m = (case metadata d of Some m0 \<Rightarrow> metaRest m0 | None \<Rightarrow> [])"
      using touch_frame(4) [of now "storeMasterTasks (?L[i := ?t']) d"]
      by (simp add: store_frame)
    show "tid (masterTasks ?d' ! i) = taskId" by (simp add: at_i applyIssue_frame id)
    show "summary (masterTasks ?d' ! i) = summary (?L ! i)" by (simp add: at_i applyIssue_frame)
    show "details (masterTasks ?d' ! i) = details (?L ! i)" by (simp add: at_i applyIssue_frame)
    show "ttype (masterTasks ?d' ! i) = ttype (?L ! i)" by (simp add: at_i applyIssue_frame)
    show "tags (masterTasks ?d' ! i) = tags (?L ! i)" by (simp add: at_i applyIssue_frame)
    show "title (masterTasks ?d' ! i) =
          (if truthy (issueField f_summary issueData)
              \<and> issueField f_summary issueData \<noteq> title (?L ! i)
           then issueField f_summary issueData else title (?L ! i))"
      by (simp only: at_i applyIssue_title)
    show "description (masterTasks ?d' ! i) =
          (if truthy (issueField f_description issueData)
              \<and> issueField f_description issueData \<noteq> description (?L ! i)
           then issueField f_description issueData else description (?L ! i))"
      by (simp only: at_i applyIssue_description)
    show "status (masterTasks ?d' ! i) =
          (case issueField f_status_name issueData of
             None \<Rightarrow> status (?L ! i)
           | Some n \<Rightarrow>
               if n \<noteq> [] \<and> \<not> sameValue (mapJiraStatusToTaskStatus n) (status (?L ! i))
               then written (mapJiraStatusToTaskStatus n) else status (?L ! i))"
      by (simp only: at_i applyIssue_status)
    show "priority (masterTasks ?d' ! i) =
          (case issueField f_priority_name issueData of
             None \<Rightarrow> priority (?L ! i)
           | Some n \<Rightarrow>
               if n \<noteq> [] \<and> \<not> sameValue (mapJiraPriorityToTaskPriority n) (priority (?L ! i))
               then written (mapJiraPriorityToTaskPriority n) else priority (?L ! i))"
      by (simp only: at_i applyIssue_priority)
  qed
qed


theorem reverse_sync_write_back_witness:
  "\<exists>d'. updateTaskMasterTask ''2026-01-01T00:00:00.000Z'' ''t-1'' (exIssue ''t-1'') (idle ())
          = (Inr (), (idle ())\<lparr>tasksFile := Inr d', writes := [d']\<rparr>)
      \<and> length (masterTasks d') = 2
      \<and> masterTasks d' ! 1 = asStored (exTask ''t-2'' (Some []))
      \<and> otherTags d' = otherTags exData
      \<and> (\<exists>m. metadata d' = Some m \<and> updated m = Some ''2026-01-01T00:00:00.000Z'')
      \<and> tid (masterTasks d' ! 0) = ''t-1''
      \<and> tags (masterTasks d' ! 0) = Some [''cc-dev:proj'']
      \<and> title (masterTasks d' ! 0) = Some ''Updated title''
      \<and> description (masterTasks d' ! 0) = None
      \<and> status (masterTasks d' ! 0) = Some (Text ''in_progress'')
      \<and> priority (masterTasks d' ! 0) = Some (Text ''high'')"
proof -
  have m: "masterTasks exData = [asStored (exTask ''t-1'' (Some [''cc-dev:proj''])),
       asStored (exTask ''t-2'' (Some []))]"
    by (simp add: masterTasks_def exData_def)
  have a: "tasksFile (idle ()) = Inr exData" "writeError (idle ()) = None"
    "writes (idle ()) = []"
    by (simp_all add: idle_def)
  have b: "findIndex (\<lambda>t. tid t = ''t-1'') (masterTasks exData) = Some 0"
    by (simp add: m exTask_def asStored_def sameValue_def written_def)
  have f: "issueField f_summary (exIssue ''t-1'') = Some ''Updated title''"
    "issueField f_description (exIssue ''t-1'') = None"
    "issueField f_status_name (exIssue ''t-1'') = Some ''In Progress''"
    "issueField f_priority_name (exIssue ''t-1'') = Some ''High''"
    by (simp_all add: issueField_def exIssue_def)
  have g: "mapJiraStatusToTaskStatus ''In Progress'' = Str ''in_progress''"
    "mapJiraPriorityToTaskPriority ''High'' = Str ''high''"
    by (simp_all add: mapJiraStatusToTaskStatus_def mapJiraPriorityToTaskPriority_def
        lookupOr_def)
  from reverse_sync_write_back [OF a(1) b a(2), of "''2026-01-01T00:00:00.000Z''" "exIssue ''t-1''"]
  obtain d' where d':
    "updateTaskMasterTask ''2026-01-01T00:00:00.000Z'' ''t-1'' (exIssue ''t-1'') (idle ())
       = (Inr (), (idle ())\<lparr>tasksFile := Inr d', writes := writes (idle ()) @ [d']\<rparr>)"
    "length (masterTasks d') = length (masterTasks exData)"
    "\<forall>j < length (masterTasks exData). j \<noteq> 0 \<longrightarrow> masterTasks d' ! j = masterTasks exData ! j"
    "otherTags d' = otherTags exData"
    "\<exists>m. metadata d' = Some m \<and> updated m = Some ''2026-01-01T00:00:00.000Z''
       \<and> metaRest m = (case metadata exData of Some m0 \<Rightarrow> metaRest m0 | None \<Rightarrow> [])"
    "tid (masterTasks d' ! 0) = ''t-1''"
    "tags (masterTasks d' ! 0) = tags (masterTasks exData ! 0)"
    "title (masterTasks d' ! 0) =
       (if truthy (issueField f_summary (exIssue ''t-1''))
           \<and> issueField f_summary (exIssue ''t-1'') \<noteq> title (masterTasks exData ! 0)
        then issueField f_summary (exIssue ''t-1'') else title (masterTasks exData ! 0))"
    "description (masterTasks d' ! 0) =
       (if truthy (issueField f_description (exIssue ''t-1''))
           \<and> issueField f_description (exIssue ''t-1'') \<noteq> description (masterTasks exData ! 0)
        then issueField f_description (exIssue ''t-1'') else description (masterTasks exData ! 0))"
    "status (masterTasks d' ! 0) =
       (case issueField f_status_name (exIssue ''t-1'') of
             None \<Rightarrow> status (masterTasks exData ! 0)
           | Some n \<Rightarrow>
               if n \<noteq> [] \<and> \<not> sameValue (mapJiraStatusToTaskStatus n) (status (masterTasks exData ! 0))
               then written (mapJiraStatusToTaskStatus n) else status (masterTasks exData ! 0))"
    "priority (masterTasks d' ! 0) =
       (case issueField f_priority_name (exIssue ''t-1'') of
             None \<Rightarrow> priority (masterTasks exData ! 0)
           | Some n \<Rightarrow>
               if n \<noteq> [] \<and> \<not> sameValue (mapJiraPriorityToTaskPriority n) (priority (masterTasks exData ! 0))
               then written (mapJiraPriorityToTaskPriority n) else priority (masterTasks exData ! 0))"
    by blast
  show ?thesis
  proof (intro exI [of _ d'] conjI)
    show "updateTaskMasterTask ''2026-01-01T00:00:00.000Z'' ''t-1'' (exIssue ''t-1'') (idle ())
            = (Inr (), (idle ())\<lparr>tasksFile := Inr d', writes := [d']\<rparr>)"
      using d'(1) by (simp add: a)
    show "length (masterTasks d') = 2" using d'(2) by (simp add: m)
    show "masterTasks d' ! 1 = asStored (exTask ''t-2'' (Some []))" using d'(3) by (simp add: m)
    show "otherTags d' = otherTags exData" by (rule d'(4))
    show "\<exists>m. metadata d' = Some m \<and> updated m = Some ''2026-01-01T00:00:00.000Z''"
      using d'(5) by blast
    show "tid (masterTasks d' ! 0) = ''t-1''" by (rule d'(6))
    show "tags (masterTasks d' ! 0) = Some [''cc-dev:proj'']"
      using d'(7) by (simp add: m exTask_def asStored_def sameValue_def written_def)
    show "title (masterTasks d' ! 0) = Some ''Updated title''"
      using d'(8) by (simp add: m f exTask_def asStored_def sameValue_def written_def truthy_def)
    show "description (masterTasks d' ! 0) = None"
      using d'(9) by (simp add: m f exTask_def asStored_def sameValue_def written_def truthy_def)
    show "status (masterTasks d' ! 0) = Some (Text ''in_progress'')"
      using d'(10) by (simp add: m f g exTask_def asStored_def sameValue_def written_def truthy_def)
    show "priority (masterTasks d' ! 0) = Some (Text ''high'')"
      using d'(11) by (simp add: m f g exTask_def asStored_def sameValue_def written_def truthy_def)
  qed
qed

text \<open>
  A status name and a priority name that the tables inherit: the function answered for
  \<^verbatim>\<open>constructor\<close> is left out of the written task, the prototype object answered for
  \<^verbatim>\<open>__proto__\<close> is written as an empty object; the other task keeps its fields.
\<close>

lemma reverse_sync_inherited_names:
  "map (\<lambda>t. (status t, priority t))
     (case tasksFile (snd (updateTaskMasterTask ''2026-01-01T00:00:00.000Z'' ''t-1''
              \<lparr> key = ''PROJ-9'',
                ifields = Some \<lparr> f_summary = None, f_description = None,
                                 f_status_name = Some ''constructor'',
                                 f_priority_name = Some ''__proto__'', custom = [] \<rparr> \<rparr>
              (idle ()))) of
        Inl e \<Rightarrow> []
      | Inr d \<Rightarrow> masterTasks d)
   = [(None, Some EmptyObject), (Some (Text ''pending''), Some (Text ''high''))]"
  by code_simp

lemma unlocked_restore:
  "k \<notin> syncLocks h \<Longrightarrow> h\<lparr>syncLocks := insert k (syncLocks h) - {k}\<rparr> = h"
  by simp



section \<open>Forward sync: the calls made to the tracker\<close>

lemma onlyCalls_refl [simp]: "onlyCalls h h"
  by (simp add: onlyCalls_def)

lemma onlyCalls_trans: "onlyCalls a b \<Longrightarrow> onlyCalls b c \<Longrightarrow> onlyCalls a c"
  by (auto simp: onlyCalls_def)

lemma onlyCalls_steps [simp]:
  "onlyCalls h (invoked c h)" "onlyCalls h (printed l h)" "onlyCalls h (h\<lparr>tracker := w\<rparr>)"
  by (simp_all add: onlyCalls_def)

lemma onlyCalls_after [simp]:
  "onlyCalls h h1 \<Longrightarrow> onlyCalls h (invoked c h1)"
  "onlyCalls h h1 \<Longrightarrow> onlyCalls h (printed l h1)"
  "onlyCalls h h1 \<Longrightarrow> onlyCalls h (h1\<lparr>tracker := w\<rparr>)"
  by (auto simp: onlyCalls_def)

lemma newCalls_append: "trace h' = trace h @ cs \<Longrightarrow> newCalls h h' = cs"
  by (simp add: newCalls_def)

lemma find_onlyCalls: "findJiraIssueForTask J i h = (r, h1) \<Longrightarrow> onlyCalls h h1"
  by (auto simp: findJiraIssueForTask.simps Let_def split: prod.splits sum.splits list.splits)

lemma find_trace:
  "findJiraIssueForTask J i h = (r, h1) \<Longrightarrow> trace h1 = trace h @ [JiraSearch (taskJql J i) 1]"
  by (auto simp: findJiraIssueForTask.simps Let_def split: prod.splits sum.splits list.splits)

lemma status_onlyCalls: "onlyCalls h (updateJiraIssueStatus J k st h)"
  by (auto simp: updateJiraIssueStatus.simps Let_def split: prod.splits sum.splits)

lemma update_onlyCalls: "updateJiraIssueFromTask J k t h = (r, h1) \<Longrightarrow> onlyCalls h h1"
  by (auto simp: updateJiraIssueFromTask.simps Let_def
      intro: onlyCalls_trans [OF _ status_onlyCalls] split: prod.splits sum.splits if_splits)

lemma create_onlyCalls: "createJiraIssueFromTask J t h = (r, h1) \<Longrightarrow> onlyCalls h h1"
  by (auto simp: createJiraIssueFromTask.simps Let_def split: prod.splits sum.splits if_splits)

lemma syncTask_onlyCalls: "syncTaskToJira J t pk h = (r, h1) \<Longrightarrow> onlyCalls h h1"
  by (auto simp: syncTaskToJira.simps split: prod.splits option.splits sum.splits
      dest!: find_onlyCalls update_onlyCalls create_onlyCalls intro: onlyCalls_trans)

lemma syncTask_trace:
  assumes "syncTaskToJira J t pk h = (r, h1)"
  shows "\<exists>cs. trace h1 = trace h @ JiraSearch (taskJql J (tid t)) 1 # cs"
proof -
  obtain f h0 where f: "findJiraIssueForTask J (tid t) h = (f, h0)" by force
  have "onlyCalls h0 h1"
    using assms f
    by (auto simp: syncTaskToJira.simps split: option.splits prod.splits sum.splits
        dest: update_onlyCalls create_onlyCalls)
  then obtain cs where "trace h1 = trace h0 @ cs" by (auto simp: onlyCalls_def)
  with find_trace [OF f] show ?thesis by simp
qed

lemma syncProject_onlyCalls: "onlyCalls h (syncProjectTasks J pk ts h)"
proof (induction ts arbitrary: h)
  case Nil
  show ?case by simp
next
  case (Cons t ts)
  obtain r h1 where s: "syncTaskToJira J t (Some pk) h = (r, h1)" by force
  define h2 where "h2 = (case r of Inl e \<Rightarrow> printed (FailedSyncTask (tid t) pk e) h1 | Inr _ \<Rightarrow> h1)"
  have step: "syncProjectTasks J pk (t # ts) h = syncProjectTasks J pk ts h2"
    using s by (simp add: h2_def split: sum.splits)
  from syncTask_onlyCalls [OF s] have "onlyCalls h h2"
    by (simp add: h2_def split: sum.splits)
  from onlyCalls_trans [OF this Cons.IH [of h2]] show ?case
    by (simp only: step)
qed

lemma syncProject_attempts:
  "t \<in> set ts \<Longrightarrow>
   \<exists>cs1 cs2. trace (syncProjectTasks J pk ts h) = trace h @ cs1 @ JiraSearch (taskJql J (tid t)) 1 # cs2"
proof (induction ts arbitrary: h)
  case Nil
  then show ?case by simp
next
  case (Cons a ts)
  obtain r h1 where s: "syncTaskToJira J a (Some pk) h = (r, h1)" by force
  define h2 where "h2 = (case r of Inl e \<Rightarrow> printed (FailedSyncTask (tid a) pk e) h1 | Inr _ \<Rightarrow> h1)"
  have step: "syncProjectTasks J pk (a # ts) h = syncProjectTasks J pk ts h2"
    using s by (simp add: h2_def split: sum.splits)
  have t2: "trace h2 = trace h1" by (simp add: h2_def split: sum.splits)
  from syncTask_trace [OF s] obtain cs where cs: "trace h1 = trace h @ JiraSearch (taskJql J (tid a)) 1 # cs"
    by blast
  show ?case
  proof (cases "t = a")
    case True
    from syncProject_onlyCalls [of h2 J pk ts] obtain cs' where
      "trace (syncProjectTasks J pk ts h2) = trace h2 @ cs'"
      by (auto simp: onlyCalls_def)
    then have "trace (syncProjectTasks J pk (a # ts) h)
        = trace h @ [] @ JiraSearch (taskJql J (tid t)) 1 # (cs @ cs')"
      using step t2 cs True by simp
    then show ?thesis by blast
  next
    case False
    then have "t \<in> set ts" using Cons.prems by simp
    from Cons.IH [OF this, of h2] obtain cs1 cs2 where
      "trace (syncProjectTasks J pk ts h2) = trace h2 @ cs1 @ JiraSearch (taskJql J (tid t)) 1 # cs2"
      by blast
    then have "trace (syncProjectTasks J pk (a # ts) h)
        = trace h @ (JiraSearch (taskJql J (tid a)) 1 # cs @ cs1) @ JiraSearch (taskJql J (tid t)) 1 # cs2"
      using step t2 cs by simp
    then show ?thesis by blast
  qed
qed

lemma syncGroups_onlyCalls: "onlyCalls h (syncGroups J gs h)"
proof (induction gs arbitrary: h)
  case Nil
  show ?case by simp
next
  case (Cons g gs)
  obtain k ts where g: "g = (k, ts)" by force
  show ?case
    using Cons.IH [of "syncProjectTasks J k ts h"] syncProject_onlyCalls [of h J k ts]
    by (auto simp: g intro: onlyCalls_trans)
qed

lemma syncGroups_attempts:
  "(k, g) \<in> set gs \<Longrightarrow> t \<in> set g \<Longrightarrow>
   \<exists>cs1 cs2. trace (syncGroups J gs h) = trace h @ cs1 @ JiraSearch (taskJql J (tid t)) 1 # cs2"
proof (induction gs arbitrary: h)
  case Nil
  then show ?case by simp
next
  case (Cons a gs)
  obtain k' ts where a: "a = (k', ts)" by force
  let ?h1 = "syncProjectTasks J k' ts h"
  from syncProject_onlyCalls [of h J k' ts] obtain c0 where c0: "trace ?h1 = trace h @ c0"
    by (auto simp: onlyCalls_def)
  show ?case
  proof (cases "(k, g) = a")
    case True
    then have "t \<in> set ts" using Cons.prems a by simp
    from syncProject_attempts [OF this, of J k' h] obtain cs1 cs2 where
      p: "trace ?h1 = trace h @ cs1 @ JiraSearch (taskJql J (tid t)) 1 # cs2" by blast
    from syncGroups_onlyCalls [of ?h1 J gs] obtain cs' where
      "trace (syncGroups J gs ?h1) = trace ?h1 @ cs'" by (auto simp: onlyCalls_def)
    then have "trace (syncGroups J (a # gs) h)
        = trace h @ cs1 @ JiraSearch (taskJql J (tid t)) 1 # (cs2 @ cs')"
      using p a by simp
    then show ?thesis by blast
  next
    case False
    then have "(k, g) \<in> set gs" using Cons.prems by auto
    from Cons.IH [OF this Cons.prems(2), of ?h1] obtain cs1 cs2 where
      "trace (syncGroups J gs ?h1) = trace ?h1 @ cs1 @ JiraSearch (taskJql J (tid t)) 1 # cs2"
      by blast
    then have "trace (syncGroups J (a # gs) h)
        = trace h @ (c0 @ cs1) @ JiraSearch (taskJql J (tid t)) 1 # cs2"
      using c0 a by simp
    then show ?thesis by blast
  qed
qed

lemma set_entries: "set (entries g) = set g"
  by (auto simp: entries_def)

lemma lookups_simps [simp]:
  "lookups [] = []" "lookups (cs @ ds) = lookups cs @ lookups ds"
  "lookups (JiraSearch q n # cs) = JiraSearch q n # lookups cs"
  "lookups (JiraCreateIssue f # cs) = lookups cs"
  "lookups (JiraUpdateIssue p # cs) = lookups cs"
  "lookups (JiraTransitionIssue k st # cs) = lookups cs"
  by (simp_all add: lookups_def)

lemma update_calls:
  "updateJiraIssueFromTask J k t h = (r, h1) \<Longrightarrow> \<exists>cs. trace h1 = trace h @ cs \<and> lookups cs = []"
  by (auto simp: updateJiraIssueFromTask.simps updateJiraIssueStatus.simps Let_def
      split: prod.splits sum.splits if_splits)

lemma create_calls:
  "createJiraIssueFromTask J t h = (r, h1) \<Longrightarrow> \<exists>cs. trace h1 = trace h @ cs \<and> lookups cs = []"
  by (auto simp: createJiraIssueFromTask.simps Let_def split: prod.splits sum.splits if_splits)

lemma syncTask_calls:
  assumes "syncTaskToJira J t pk h = (r, h1)"
  shows "\<exists>cs. trace h1 = trace h @ cs \<and> lookups cs = [JiraSearch (taskJql J (tid t)) 1]"
proof -
  obtain f h0 where f: "findJiraIssueForTask J (tid t) h = (f, h0)" by force
  have "\<exists>cs. trace h1 = trace h0 @ cs \<and> lookups cs = []"
    using assms f
    by (auto simp: syncTaskToJira.simps split: option.splits prod.splits sum.splits
        dest: update_calls create_calls)
  then obtain cs where "trace h1 = trace h0 @ cs" "lookups cs = []" by blast
  with find_trace [OF f] have "trace h1 = trace h @ (JiraSearch (taskJql J (tid t)) 1 # cs)
      \<and> lookups (JiraSearch (taskJql J (tid t)) 1 # cs) = [JiraSearch (taskJql J (tid t)) 1]"
    by simp
  then show ?thesis by blast
qed

lemma syncProject_calls:
  "\<exists>cs. trace (syncProjectTasks J pk ts h) = trace h @ cs
      \<and> lookups cs = map (\<lambda>t. JiraSearch (taskJql J (tid t)) 1) ts"
proof (induction ts arbitrary: h)
  case Nil
  show ?case by simp
next
  case (Cons a ts)
  obtain r h1 where s: "syncTaskToJira J a (Some pk) h = (r, h1)" by force
  define h2 where "h2 = (case r of Inl e \<Rightarrow> printed (FailedSyncTask (tid a) pk e) h1 | Inr _ \<Rightarrow> h1)"
  have step: "syncProjectTasks J pk (a # ts) h = syncProjectTasks J pk ts h2"
    using s by (simp add: h2_def split: sum.splits)
  have t2: "trace h2 = trace h1" by (simp add: h2_def split: sum.splits)
  from syncTask_calls [OF s] obtain c1 where
    c1: "trace h1 = trace h @ c1" "lookups c1 = [JiraSearch (taskJql J (tid a)) 1]" by blast
  from Cons.IH [of h2] obtain c2 where
    c2: "trace (syncProjectTasks J pk ts h2) = trace h2 @ c2"
      "lookups c2 = map (\<lambda>t. JiraSearch (taskJql J (tid t)) 1) ts" by blast
  have "trace (syncProjectTasks J pk (a # ts) h) = trace h @ (c1 @ c2)
      \<and> lookups (c1 @ c2) = map (\<lambda>t. JiraSearch (taskJql J (tid t)) 1) (a # ts)"
    unfolding step using c1 c2 t2 by simp
  then show ?case by blast
qed

lemma syncGroups_calls:
  "\<exists>cs. trace (syncGroups J gs h) = trace h @ cs
      \<and> lookups cs = map (\<lambda>t. JiraSearch (taskJql J (tid t)) 1) (concat (map snd gs))"
proof (induction gs arbitrary: h)
  case Nil
  show ?case by simp
next
  case (Cons g gs)
  obtain k ts where g: "g = (k, ts)" by force
  let ?h1 = "syncProjectTasks J k ts h"
  from syncProject_calls [of J k ts h] obtain c1 where
    c1: "trace ?h1 = trace h @ c1" "lookups c1 = map (\<lambda>t. JiraSearch (taskJql J (tid t)) 1) ts"
    by blast
  from Cons.IH [of ?h1] obtain c2 where
    c2: "trace (syncGroups J gs ?h1) = trace ?h1 @ c2"
      "lookups c2 = map (\<lambda>t. JiraSearch (taskJql J (tid t)) 1) (concat (map snd gs))" by blast
  have "trace (syncGroups J (g # gs) h) = trace h @ (c1 @ c2)
      \<and> lookups (c1 @ c2) = map (\<lambda>t. JiraSearch (taskJql J (tid t)) 1) (concat (map snd (g # gs)))"
    using c1 c2 by (simp add: g)
  then show ?case by blast
qed

section \<open>Sync locks are released\<close>

lemma tagTry_locks:
  "syncLocks (snd (handleTagUpdateTry J tagName ts h)) = syncLocks h \<or>
   syncLocks (snd (handleTagUpdateTry J tagName ts h)) = insert (''tag:'' @ tagName) (syncLocks h)"
proof -
  let ?h1 = "h\<lparr>syncLocks := insert (''tag:'' @ tagName) (syncLocks h)\<rparr>"
  have "syncLocks (syncGroups J gs ?h1) = syncLocks ?h1" for gs
    using syncGroups_onlyCalls [of ?h1 J gs] by (simp add: onlyCalls_def)
  then show ?thesis
    by (simp add: handleTagUpdateTry.simps Let_def)
qed

lemma taskTry_locks:
  "syncLocks (snd (handleTaskUpdateTry J t tag h)) = syncLocks h \<or>
   syncLocks (snd (handleTaskUpdateTry J t tag h)) = insert (''task:'' @ tid t) (syncLocks h)"
proof -
  let ?h1 = "h\<lparr>syncLocks := insert (''task:'' @ tid t) (syncLocks h)\<rparr>"
  obtain r h2 where s: "syncTaskToJira J t None ?h1 = (r, h2)" by force
  from syncTask_onlyCalls [OF s] have "syncLocks h2 = syncLocks ?h1"
    by (simp add: onlyCalls_def)
  then show ?thesis
    using s by (auto simp: handleTaskUpdateTry.simps Let_def split: sum.splits)
qed

lemma updateTaskMasterTask_locks:
  "syncLocks (snd (updateTaskMasterTask now taskId i h)) = syncLocks h"
  by (simp add: updateTaskMasterTask.simps Let_def split: sum.splits option.splits)

lemma jiraTry_locks:
  "syncLocks (snd (handleJiraIssueUpdateTry J now i h)) = syncLocks h \<or>
   syncLocks (snd (handleJiraIssueUpdateTry J now i h)) = insert (''jira:'' @ key i) (syncLocks h)"
proof -
  let ?h1 = "h\<lparr>syncLocks := insert (''jira:'' @ key i) (syncLocks h)\<rparr>"
  let ?id = "case extractTaskMasterIdFromJiraIssue J i of Some x \<Rightarrow> x | None \<Rightarrow> []"
  obtain r h2 where s: "updateTaskMasterTask now ?id i ?h1 = (r, h2)" by force
  from updateTaskMasterTask_locks [of now ?id i ?h1] s have "syncLocks h2 = syncLocks ?h1"
    by simp
  then show ?thesis
    using s by (auto simp: handleJiraIssueUpdateTry.simps Let_def split: sum.splits)
qed

lemma handleTagUpdate_locks:
  "syncLocks (handleTagUpdate J tagName ts h) = syncLocks h - {''tag:'' @ tagName}"
proof -
  obtain r h1 where t: "handleTagUpdateTry J tagName ts h = (r, h1)" by force
  with tagTry_locks [of J tagName ts h]
  have "syncLocks h1 = syncLocks h \<or> syncLocks h1 = insert (''tag:'' @ tagName) (syncLocks h)"
    by simp
  then have "syncLocks h1 - {''tag:'' @ tagName} = syncLocks h - {''tag:'' @ tagName}"
    by auto
  then show ?thesis
    using t by (cases r) (simp_all add: handleTagUpdate.simps)
qed

lemma handleTaskUpdate_locks:
  "syncLocks (handleTaskUpdate J t tag h) = syncLocks h - {''task:'' @ tid t}"
proof -
  obtain r h1 where t: "handleTaskUpdateTry J t tag h = (r, h1)" by force
  with taskTry_locks [of J t tag h]
  have "syncLocks h1 = syncLocks h \<or> syncLocks h1 = insert (''task:'' @ tid t) (syncLocks h)"
    by simp
  then have "syncLocks h1 - {''task:'' @ tid t} = syncLocks h - {''task:'' @ tid t}"
    by auto
  then show ?thesis
    using t by (cases r) (simp_all add: handleTaskUpdate.simps)
qed

lemma handleJiraIssueUpdate_locks:
  "syncLocks (handleJiraIssueUpdate J now i h) = syncLocks h - {''jira:'' @ key i}"
proof -
  obtain r h1 where t: "handleJiraIssueUpdateTry J now i h = (r, h1)" by force
  with jiraTry_locks [of J now i h]
  have "syncLocks h1 = syncLocks h \<or> syncLocks h1 = insert (''jira:'' @ key i) (syncLocks h)"
    by simp
  then have "syncLocks h1 - {''jira:'' @ key i} = syncLocks h - {''jira:'' @ key i}"
    by auto
  then show ?thesis
    using t by (cases r) (simp_all add: handleJiraIssueUpdate.simps)
qed

text \<open>
  C1. Whatever the state an entry point is called in and whatever its \<^verbatim>\<open>try\<close> block
  does (a normal completion, an early return, a raised error), when the entry point
  returns the lock set is the one it was called with, less its own lock key: the key
  is not in the set, and no other key has been added or removed. The key is
  \<^verbatim>\<open>tag:<name>\<close> for the tag sync, \<^verbatim>\<open>task:<id>\<close> for the task sync, and for the
  reverse sync the key built from the issue key, which the code spells
  \<^verbatim>\<open>jira:<key>\<close>.
\<close>

theorem lock_released_on_return:
  "syncLocks (handleTagUpdate J tagName ts h) = syncLocks h - {''tag:'' @ tagName} \<and>
   ''tag:'' @ tagName \<notin> syncLocks (handleTagUpdate J tagName ts h) \<and>
   syncLocks (handleTaskUpdate J taskData tagContext h)
     = syncLocks h - {''task:'' @ tid taskData} \<and>
   ''task:'' @ tid taskData \<notin> syncLocks (handleTaskUpdate J taskData tagContext h) \<and>
   syncLocks (handleJiraIssueUpdate J now issueData h)
     = syncLocks h - {''jira:'' @ key issueData} \<and>
   ''jira:'' @ key issueData \<notin> syncLocks (handleJiraIssueUpdate J now issueData h)"
  by (simp add: handleTagUpdate_locks handleTaskUpdate_locks handleJiraIssueUpdate_locks)

section \<open>Tag sync: failures of single tasks\<close>

lemma tagTry_run:
  assumes "syncEnabled h" and "''tag:'' @ tagName \<notin> syncLocks h"
    and "filterSyncableTasks ts \<noteq> []"
  shows "handleTagUpdate J tagName ts h =
     (emit (TagSynced tagName (length (filterSyncableTasks ts)))
        (syncGroups J (entries (groupTasksByProject (filterSyncableTasks ts)))
           (h\<lparr>syncLocks := insert (''tag:'' @ tagName) (syncLocks h)\<rparr>)))
       \<lparr>syncLocks := syncLocks h\<rparr>"
proof -
  let ?h1 = "h\<lparr>syncLocks := insert (''tag:'' @ tagName) (syncLocks h)\<rparr>"
  let ?h2 = "syncGroups J (entries (groupTasksByProject (filterSyncableTasks ts))) ?h1"
  have "syncLocks ?h2 = syncLocks ?h1"
    using syncGroups_onlyCalls [of ?h1 J] by (simp add: onlyCalls_def)
  then have "syncLocks ?h2 - {''tag:'' @ tagName} = syncLocks h"
    using assms(2) by simp
  then show ?thesis
    using assms by (simp add: handleTagUpdate.simps handleTagUpdateTry.simps Let_def)
qed

lemma tag_lookups:
  assumes "syncEnabled h" and "''tag:'' @ tagName \<notin> syncLocks h"
  shows "lookups (newCalls h (handleTagUpdate J tagName ts h)) =
     map (\<lambda>t. JiraSearch (taskJql J (tid t)) 1)
       (concat (map snd (entries (groupTasksByProject (filterSyncableTasks ts)))))"
proof (cases "filterSyncableTasks ts = []")
  case True
  then have "handleTagUpdate J tagName ts h = h"
    using assms by (simp add: handleTagUpdate.simps handleTagUpdateTry.simps Let_def)
  then show ?thesis
    using True by (simp add: newCalls_def groupTasksByProject_def entries_def)
next
  case False
  let ?h1 = "h\<lparr>syncLocks := insert (''tag:'' @ tagName) (syncLocks h)\<rparr>"
  let ?gs = "entries (groupTasksByProject (filterSyncableTasks ts))"
  from syncGroups_calls [of J ?gs ?h1] obtain cs where
    cs: "trace (syncGroups J ?gs ?h1) = trace ?h1 @ cs"
      "lookups cs = map (\<lambda>t. JiraSearch (taskJql J (tid t)) 1) (concat (map snd ?gs))"
    by blast
  then have "trace (handleTagUpdate J tagName ts h) = trace h @ cs"
    by (simp add: tagTry_run [OF assms False])
  from newCalls_append [OF this] cs(2) show ?thesis by simp
qed

lemma in_group:
  assumes "t \<in> set ts" and "extractProjectKeyFromTask t = Some k" and "k \<noteq> []"
  shows "\<exists>g. (k, g) \<in> set (entries (groupTasksByProject ts)) \<and> t \<in> set g"
proof -
  from groupLoop_member [OF assms, of "[]"] obtain g where
    "map_of (groupTasksByProject ts) k = Some g" "t \<in> set g"
    by (auto simp: groupTasksByProject_def)
  then show ?thesis by (auto simp: set_entries dest: map_of_SomeD)
qed

text \<open>
  C3 (amended). When the tag sync runs (the handler is enabled and the tag's lock is
  free), whatever the tracker answers or raises: every syncable task whose project
  key is not empty, so that it belongs to a project group, is attempted (its lookup is
  sent to the tracker); when there is a syncable task, the handler emits exactly the
  completion event, with the number of syncable tasks, grouped or not. Within a
  group, when the sync of a task raises an error, the error is printed and every later
  task of the group is still attempted. The lookups sent are exactly one for each
  grouped task, group by group in the order of \<^verbatim>\<open>Object.entries\<close>.
\<close>

theorem tag_sync_isolates_failures:
  assumes "syncEnabled h" and "''tag:'' @ tagName \<notin> syncLocks h"
  shows "(\<forall>t \<in> set (filterSyncableTasks ts).
            (\<exists>k. extractProjectKeyFromTask t = Some k \<and> k \<noteq> [])
            \<longrightarrow> JiraSearch (taskJql J (tid t)) 1
                  \<in> set (newCalls h (handleTagUpdate J tagName ts h)))
       \<and> (filterSyncableTasks ts \<noteq> []
            \<longrightarrow> emitted (handleTagUpdate J tagName ts h)
                  = emitted h @ [TagSynced tagName (length (filterSyncableTasks ts))])
       \<and> (\<forall>pk t rest e h0 h1.
            syncTaskToJira J t (Some pk) h0 = (Inl e, h1)
            \<longrightarrow> FailedSyncTask (tid t) pk e \<in> set (console (syncProjectTasks J pk (t # rest) h0))
                \<and> (\<forall>t' \<in> set rest.
                      JiraSearch (taskJql J (tid t')) 1
                        \<in> set (newCalls h1 (syncProjectTasks J pk (t # rest) h0))))
       \<and> lookups (newCalls h (handleTagUpdate J tagName ts h)) =
           map (\<lambda>t. JiraSearch (taskJql J (tid t)) 1)
             (concat (map snd (entries (groupTasksByProject (filterSyncableTasks ts)))))"
proof (intro conjI ballI allI impI)
  show "lookups (newCalls h (handleTagUpdate J tagName ts h)) =
           map (\<lambda>t. JiraSearch (taskJql J (tid t)) 1)
             (concat (map snd (entries (groupTasksByProject (filterSyncableTasks ts)))))"
    by (rule tag_lookups [OF assms])
next
  fix t
  assume t: "t \<in> set (filterSyncableTasks ts)"
    and "\<exists>k. extractProjectKeyFromTask t = Some k \<and> k \<noteq> []"
  then obtain k where k: "extractProjectKeyFromTask t = Some k" "k \<noteq> []" by blast
  from t have ne: "filterSyncableTasks ts \<noteq> []" by auto
  let ?h1 = "h\<lparr>syncLocks := insert (''tag:'' @ tagName) (syncLocks h)\<rparr>"
  from in_group [OF t k] obtain g where
    g: "(k, g) \<in> set (entries (groupTasksByProject (filterSyncableTasks ts)))" "t \<in> set g"
    by blast
  from syncGroups_attempts [OF g, of J ?h1] obtain cs1 cs2 where
    "trace (syncGroups J (entries (groupTasksByProject (filterSyncableTasks ts))) ?h1)
       = trace ?h1 @ cs1 @ JiraSearch (taskJql J (tid t)) 1 # cs2"
    by blast
  then have "trace (handleTagUpdate J tagName ts h)
       = trace h @ (cs1 @ JiraSearch (taskJql J (tid t)) 1 # cs2)"
    by (simp add: tagTry_run [OF assms ne])
  from newCalls_append [OF this]
  show "JiraSearch (taskJql J (tid t)) 1 \<in> set (newCalls h (handleTagUpdate J tagName ts h))"
    by simp
next
  assume ne: "filterSyncableTasks ts \<noteq> []"
  let ?h1 = "h\<lparr>syncLocks := insert (''tag:'' @ tagName) (syncLocks h)\<rparr>"
  have "emitted (syncGroups J (entries (groupTasksByProject (filterSyncableTasks ts))) ?h1)
          = emitted ?h1"
    using syncGroups_onlyCalls [of ?h1 J] by (simp add: onlyCalls_def)
  then show "emitted (handleTagUpdate J tagName ts h)
               = emitted h @ [TagSynced tagName (length (filterSyncableTasks ts))]"
    by (simp add: tagTry_run [OF assms ne])
next
  fix pk t rest e h0 h1
  assume s: "syncTaskToJira J t (Some pk) h0 = (Inl e, h1)"
  let ?h2 = "printed (FailedSyncTask (tid t) pk e) h1"
  have step: "syncProjectTasks J pk (t # rest) h0 = syncProjectTasks J pk rest ?h2"
    using s by simp
  from syncProject_onlyCalls [of ?h2 J pk rest] obtain ls where
    "console (syncProjectTasks J pk rest ?h2) = console ?h2 @ ls"
    by (auto simp: onlyCalls_def)
  then show "FailedSyncTask (tid t) pk e \<in> set (console (syncProjectTasks J pk (t # rest) h0))"
    unfolding step by simp
next
  fix pk t and rest :: "task list" and e h0 h1 t'
  assume s: "syncTaskToJira J t (Some pk) h0 = (Inl e, h1)" and t': "t' \<in> set rest"
  let ?h2 = "printed (FailedSyncTask (tid t) pk e) h1"
  have step: "syncProjectTasks J pk (t # rest) h0 = syncProjectTasks J pk rest ?h2"
    using s by simp
  from syncProject_attempts [OF t', of J pk ?h2] obtain cs1 cs2 where
    "trace (syncProjectTasks J pk rest ?h2)
       = trace ?h2 @ cs1 @ JiraSearch (taskJql J (tid t')) 1 # cs2"
    by blast
  then have "trace (syncProjectTasks J pk (t # rest) h0)
       = trace h1 @ (cs1 @ JiraSearch (taskJql J (tid t')) 1 # cs2)"
    unfolding step by simp
  from newCalls_append [OF this]
  show "JiraSearch (taskJql J (tid t')) 1
          \<in> set (newCalls h1 (syncProjectTasks J pk (t # rest) h0))"
    by simp
qed

text \<open>
  A syncable task whose first \<^verbatim>\<open>cc-dev:\<close> tag has an empty second segment gets the
  empty project key, and \<^verbatim>\<open>groupTasksByProject\<close> puts it in no group
  (\<^verbatim>\<open>if (projectKey)\<close>): it comes after a failing task and is not attempted, and the
  completion event counts it.
\<close>

theorem tag_sync_isolates_failures_counterexample:
  "exTask ''t-2'' (Some [''cc-dev:''])
     \<in> set (filterSyncableTasks
              [exTask ''t-1'' (Some [''cc-dev:proj'']), exTask ''t-2'' (Some [''cc-dev:''])]) \<and>
   FailedSyncTask ''t-1'' ''PROJ'' (ServiceError ''rejected'')
     \<in> set (console (handleTagUpdate rejectingTracker ''master''
          [exTask ''t-1'' (Some [''cc-dev:proj'']), exTask ''t-2'' (Some [''cc-dev:''])] (idle ()))) \<and>
   JiraSearch (taskJql rejectingTracker ''t-2'') 1
     \<notin> set (trace (handleTagUpdate rejectingTracker ''master''
          [exTask ''t-1'' (Some [''cc-dev:proj'']), exTask ''t-2'' (Some [''cc-dev:''])] (idle ()))) \<and>
   emitted (handleTagUpdate rejectingTracker ''master''
          [exTask ''t-1'' (Some [''cc-dev:proj'']), exTask ''t-2'' (Some [''cc-dev:''])] (idle ()))
     = [TagSynced ''master'' 2]"
  by code_simp

theorem tag_sync_isolates_failures_witness:
  "JiraSearch (taskJql rejectingTracker ''t-3'') 1
     \<in> set (newCalls (idle ()) (handleTagUpdate rejectingTracker ''master''
          [exTask ''t-1'' (Some [''cc-dev:proj'']), exTask ''t-3'' (Some [''jira:board''])] (idle ()))) \<and>
   emitted (handleTagUpdate rejectingTracker ''master''
          [exTask ''t-1'' (Some [''cc-dev:proj'']), exTask ''t-3'' (Some [''jira:board''])] (idle ()))
     = [TagSynced ''master'' 2] \<and>
   FailedSyncTask ''t-1'' ''PROJ'' (ServiceError ''rejected'')
     \<in> set (console (syncProjectTasks rejectingTracker ''PROJ''
          [exTask ''t-1'' (Some [''cc-dev:proj'']), exTask ''t-4'' (Some [''cc-dev:proj''])] (idle ()))) \<and>
   JiraSearch (taskJql rejectingTracker ''t-4'') 1
     \<in> set (newCalls
          (snd (syncTaskToJira rejectingTracker (exTask ''t-1'' (Some [''cc-dev:proj'']))
                  (Some ''PROJ'') (idle ())))
          (syncProjectTasks rejectingTracker ''PROJ''
          [exTask ''t-1'' (Some [''cc-dev:proj'']), exTask ''t-4'' (Some [''cc-dev:proj''])] (idle ())))"
proof -
  let ?ts = "[exTask ''t-1'' (Some [''cc-dev:proj'']), exTask ''t-3'' (Some [''jira:board''])]"
  let ?t1 = "exTask ''t-1'' (Some [''cc-dev:proj''])"
  let ?t4 = "exTask ''t-4'' (Some [''cc-dev:proj''])"
  have a: "syncEnabled (idle ())" "''tag:'' @ ''master'' \<notin> syncLocks (idle ())"
    "emitted (idle ()) = []"
    by (simp_all add: idle_def)
  note T = tag_sync_isolates_failures [OF a(1,2), of ?ts rejectingTracker]
  have m: "exTask ''t-3'' (Some [''jira:board'']) \<in> set (filterSyncableTasks ?ts)"
    by code_simp
  have k: "\<exists>k. extractProjectKeyFromTask (exTask ''t-3'' (Some [''jira:board''])) = Some k \<and> k \<noteq> []"
    by (simp add: extractProjectKeyFromTask_def exTask_def startsWith_def)
  have ne: "filterSyncableTasks ?ts \<noteq> []" using m by auto
  have len: "length (filterSyncableTasks ?ts) = 2" by code_simp
  obtain h1 where s: "syncTaskToJira rejectingTracker ?t1 (Some ''PROJ'') (idle ())
      = (Inl (ServiceError ''rejected''), h1)"
    by (simp add: syncTaskToJira.simps findJiraIssueForTask.simps createJiraIssueFromTask.simps
        rejectingTracker_def Let_def withProjectTag_def truthy_def exTask_def startsWith_def
        at_def invoked_def idle_def toLowerCase_def isAscii_def toLowerChar_def toUpperCase_def
        toUpperChar_def)
  have 1: "JiraSearch (taskJql rejectingTracker ''t-3'') 1
     \<in> set (newCalls (idle ()) (handleTagUpdate rejectingTracker ''master'' ?ts (idle ())))"
    using T [THEN conjunct1, rule_format, OF m k] by (simp add: exTask_def)
  have 2: "emitted (handleTagUpdate rejectingTracker ''master'' ?ts (idle ()))
     = [TagSynced ''master'' 2]"
    using T [THEN conjunct2, THEN conjunct1, rule_format, OF ne] by (simp add: a len)
  note G = T [THEN conjunct2, THEN conjunct2, THEN conjunct1, rule_format, OF s, of "[?t4]"]
  have i1: "tid ?t1 = ''t-1''" and i4: "tid ?t4 = ''t-4''" by (simp_all add: exTask_def)
  have 3: "FailedSyncTask ''t-1'' ''PROJ'' (ServiceError ''rejected'')
     \<in> set (console (syncProjectTasks rejectingTracker ''PROJ'' [?t1, ?t4] (idle ())))"
    using G [THEN conjunct1] by (simp only: i1)
  have 4: "JiraSearch (taskJql rejectingTracker ''t-4'') 1
     \<in> set (newCalls (snd (syncTaskToJira rejectingTracker ?t1 (Some ''PROJ'') (idle ())))
          (syncProjectTasks rejectingTracker ''PROJ'' [?t1, ?t4] (idle ())))"
  proof -
    have "?t4 \<in> set [?t4]" by simp
    from G [THEN conjunct2, rule_format, OF this] show ?thesis
      by (simp only: s snd_conv i4)
  qed
  from 1 2 3 4 show ?thesis by blast
qed

section \<open>Task sync, twice\<close>

lemma handleTaskUpdate_enabled:
  "syncEnabled (handleTaskUpdate J t tag h) = syncEnabled h"
proof -
  obtain r h1 where s: "syncTaskToJira J t None
      (h\<lparr>syncLocks := insert (''task:'' @ tid t) (syncLocks h)\<rparr>) = (r, h1)"
    by force
  from syncTask_onlyCalls [OF s] have "syncEnabled h1 = syncEnabled h"
    by (simp add: onlyCalls_def)
  then show ?thesis
    using s
    by (auto simp: handleTaskUpdate.simps handleTaskUpdateTry.simps Let_def split: sum.splits)
qed

lemma taskUpdate_existing:
  assumes "syncEnabled h" and "''task:'' @ tid t \<notin> syncLocks h" and "shouldSyncTask t"
    and "jira_search J (taskJql J (tid t)) 1 (tracker h) = (Inr (i # others), w)"
  shows "\<exists>rest. trace (handleTaskUpdate J t tag h) =
           trace h @ JiraSearch (taskJql J (tid t)) 1
             # JiraUpdateIssue ((''issue_key'', Str (key i)) # mapTaskUpdatesToJiraFields t) # rest
         \<and> (rest = [] \<or> rest = [JiraTransitionIssue (key i) (mapTaskStatusToJiraStatus (status t))])"
  using assms
  by (auto simp: handleTaskUpdate.simps handleTaskUpdateTry.simps syncTaskToJira.simps
      findJiraIssueForTask.simps updateJiraIssueFromTask.simps updateJiraIssueStatus.simps
      Let_def split: prod.splits sum.splits)

text \<open>
  C4. Run the task sync twice on a syncable task, the handler being enabled. If in the
  second run the tracker's lookup returns an issue (the one the first run created),
  then the calls of the second run are the lookup, an update of that issue and at most
  the status transition of that issue: no issue is created.
\<close>

theorem task_sync_twice_updates:
  assumes "syncEnabled h0" and "shouldSyncTask t"
    and "jira_search J (taskJql J (tid t)) 1 (tracker (handleTaskUpdate J t tag h0))
           = (Inr (i # others), w)"
  shows "(\<exists>rest.
            newCalls (handleTaskUpdate J t tag h0)
                     (handleTaskUpdate J t tag (handleTaskUpdate J t tag h0))
              = JiraSearch (taskJql J (tid t)) 1
                  # JiraUpdateIssue ((''issue_key'', Str (key i)) # mapTaskUpdatesToJiraFields t) # rest
            \<and> (rest = []
                \<or> rest = [JiraTransitionIssue (key i) (mapTaskStatusToJiraStatus (status t))]))
       \<and> (\<forall>f. JiraCreateIssue f
                 \<notin> set (newCalls (handleTaskUpdate J t tag h0)
                               (handleTaskUpdate J t tag (handleTaskUpdate J t tag h0))))"
proof -
  let ?h1 = "handleTaskUpdate J t tag h0"
  have e: "syncEnabled ?h1" using assms(1) by (simp add: handleTaskUpdate_enabled)
  have l: "''task:'' @ tid t \<notin> syncLocks ?h1" by (simp add: handleTaskUpdate_locks)
  from taskUpdate_existing [OF e l assms(2,3), of tag] obtain rest where
    tr: "trace (handleTaskUpdate J t tag ?h1) =
           trace ?h1 @ JiraSearch (taskJql J (tid t)) 1
             # JiraUpdateIssue ((''issue_key'', Str (key i)) # mapTaskUpdatesToJiraFields t) # rest"
    and rest: "rest = [] \<or> rest = [JiraTransitionIssue (key i) (mapTaskStatusToJiraStatus (status t))]"
    by blast
  from newCalls_append [OF tr] have n:
    "newCalls ?h1 (handleTaskUpdate J t tag ?h1) =
       JiraSearch (taskJql J (tid t)) 1
         # JiraUpdateIssue ((''issue_key'', Str (key i)) # mapTaskUpdatesToJiraFields t) # rest" .
  have "\<forall>f. JiraCreateIssue f \<notin> set (newCalls ?h1 (handleTaskUpdate J t tag ?h1))"
    using rest by (auto simp: n)
  with n rest show ?thesis by blast
qed

lemma first_run:
  "handleTaskUpdate listTracker (exTask ''t-1'' (Some [''cc-dev:proj''])) ''master'' (idle [])
   = (idle [\<lparr> key = ''PROJ-1'', ifields = None \<rparr>])
       \<lparr>trace := [JiraSearch (taskJql listTracker ''t-1'') 1,
                  JiraCreateIssue (mapTaskToJiraFields (exTask ''t-1'' (Some [''cc-dev:proj''])) ''PROJ'')],
        emitted := [TaskSynced ''t-1'' ''master'']\<rparr>"
  by code_simp

theorem task_sync_twice_updates_witness:
  "tracker (handleTaskUpdate listTracker (exTask ''t-1'' (Some [''cc-dev:proj''])) ''master'' (idle []))
     = [\<lparr> key = ''PROJ-1'', ifields = None \<rparr>] \<and>
   (\<exists>rest.
      newCalls (handleTaskUpdate listTracker (exTask ''t-1'' (Some [''cc-dev:proj''])) ''master'' (idle []))
               (handleTaskUpdate listTracker (exTask ''t-1'' (Some [''cc-dev:proj''])) ''master''
                  (handleTaskUpdate listTracker (exTask ''t-1'' (Some [''cc-dev:proj'']))
                     ''master'' (idle [])))
        = JiraSearch (taskJql listTracker ''t-1'') 1
            # JiraUpdateIssue [(''issue_key'', Str ''PROJ-1''), (''summary'', Str ''Fix bug''),
                               (''priority'', Str ''High'')] # rest) \<and>
   tracker (handleTaskUpdate listTracker (exTask ''t-1'' (Some [''cc-dev:proj''])) ''master''
              (handleTaskUpdate listTracker (exTask ''t-1'' (Some [''cc-dev:proj'']))
                 ''master'' (idle [])))
     = [\<lparr> key = ''PROJ-1'', ifields = None \<rparr>]"
proof -
  let ?t = "exTask ''t-1'' (Some [''cc-dev:proj''])"
  let ?h1 = "handleTaskUpdate listTracker ?t ''master'' (idle [])"
  have a: "syncEnabled (idle ([] :: issue list))" by (simp add: idle_def)
  have b: "shouldSyncTask ?t" by code_simp
  have t1: "tracker ?h1 = [\<lparr> key = ''PROJ-1'', ifields = None \<rparr>]"
    unfolding first_run by (simp add: idle_def)
  have c: "jira_search listTracker (taskJql listTracker (tid ?t)) 1 (tracker ?h1)
             = (Inr (\<lparr> key = ''PROJ-1'', ifields = None \<rparr> # []),
                [\<lparr> key = ''PROJ-1'', ifields = None \<rparr>])"
    unfolding t1 by (simp add: listTracker_def)
  have f: "mapTaskUpdatesToJiraFields ?t = [(''summary'', Str ''Fix bug''), (''priority'', Str ''High'')]"
    by code_simp
  have i: "tid ?t = ''t-1''" by (simp add: exTask_def)
  from task_sync_twice_updates [OF a b c, THEN conjunct1]
  have 2: "\<exists>rest.
      newCalls ?h1 (handleTaskUpdate listTracker ?t ''master'' ?h1)
        = JiraSearch (taskJql listTracker ''t-1'') 1
            # JiraUpdateIssue [(''issue_key'', Str ''PROJ-1''), (''summary'', Str ''Fix bug''),
                               (''priority'', Str ''High'')] # rest"
    unfolding f i by auto
  have 3: "tracker (handleTaskUpdate listTracker ?t ''master'' ?h1)
     = [\<lparr> key = ''PROJ-1'', ifields = None \<rparr>]"
    unfolding first_run by code_simp
  from t1 2 3 show ?thesis by blast
qed

section \<open>Tag sync while a tag sync is in flight\<close>

text \<open>
  C9. A tag sync of \<^verbatim>\<open>master\<close> is in flight: its lock is held. A second call for the
  same tag makes no tracker call and emits nothing, but it returns through the
  \<^verbatim>\<open>finally\<close> block and deletes the lock it did not take: the state it leaves is
  the idle state. A further call for the tag, still during the first one, then does
  the batch work and creates an issue.
\<close>

theorem tag_lock_removed_by_skipped_call:
  "''tag:master'' \<in> syncLocks ((idle [])\<lparr>syncLocks := {''tag:master''}\<rparr>) \<and>
   handleTagUpdate listTracker ''master'' [exTask ''t-1'' (Some [''cc-dev:proj''])]
       ((idle [])\<lparr>syncLocks := {''tag:master''}\<rparr>)
     = idle [] \<and>
   trace (handleTagUpdate listTracker ''master'' [exTask ''t-1'' (Some [''cc-dev:proj''])]
           (handleTagUpdate listTracker ''master'' [exTask ''t-1'' (Some [''cc-dev:proj''])]
              ((idle [])\<lparr>syncLocks := {''tag:master''}\<rparr>)))
     = [JiraSearch (taskJql listTracker ''t-1'') 1,
        JiraCreateIssue (mapTaskToJiraFields (exTask ''t-1'' (Some [''cc-dev:proj''])) ''PROJ'')]"
  by code_simp

end
